theory Spec2Isabelle
  imports Complex_Main
begin

section \<open>Values of the JavaScript program\<close>

text \<open>
  The action handles untyped data: what \<^verbatim>\<open>JSON.parse\<close> returns, and the object
  literals the program builds itself. A value is one of the JSON forms or
  \<^verbatim>\<open>undefined\<close>, which is what reading an absent property yields. An object is the
  list of its own properties in insertion order. Every finite double is a rational
  number, and the program only ever asks whether a number is zero.
\<close>

datatype json =
    JUndefined
  | JNull
  | JBool bool
  | JNum rat
  | JStr string
  | JArr "json list"
  | JObj "(string \<times> json) list"

datatype error =
    HttpError nat string    \<comment> \<open>\<^verbatim>\<open>new Error(`HTTP ${response.status}: ${response.statusText}`)\<close>\<close>
  | FetchFailed string      \<comment> \<open>\<^verbatim>\<open>fetch\<close> rejected: no response at all\<close>
  | TypeError               \<comment> \<open>a property read on \<^verbatim>\<open>null\<close> or \<^verbatim>\<open>undefined\<close>, a call of a non-function\<close>
  | SyntaxError             \<comment> \<open>\<^verbatim>\<open>response.json()\<close> on a body that is not JSON\<close>
  | PollTimeoutAll          \<comment> \<open>\<^verbatim>\<open>new Error('Polling timed out after all attempts.')\<close>\<close>
  | PollTimeout             \<comment> \<open>\<^verbatim>\<open>new Error('Polling timed out.')\<close>\<close>
  | PollingFailed string    \<comment> \<open>\<^verbatim>\<open>new Error(`Polling failed: ${res.statusText}`)\<close>\<close>

text \<open>
  \<^verbatim>\<open>v.k\<close> for the property names the program reads (none of them is defined on a
  prototype): a \<^verbatim>\<open>TypeError\<close> on \<^verbatim>\<open>null\<close> and \<^verbatim>\<open>undefined\<close>, the own property
  of an object, \<^verbatim>\<open>undefined\<close> otherwise.
\<close>

fun getProp :: "json \<Rightarrow> string \<Rightarrow> error + json" where
  "getProp JUndefined k = Inl TypeError"
| "getProp JNull k = Inl TypeError"
| "getProp (JObj kvs) k = Inr (case map_of kvs k of None \<Rightarrow> JUndefined | Some v \<Rightarrow> v)"
| "getProp v k = Inr JUndefined"

text \<open>JavaScript truthiness: what \<^verbatim>\<open>&&\<close>, \<^verbatim>\<open>||\<close> and \<^verbatim>\<open>!\<close> test.\<close>

fun truthy :: "json \<Rightarrow> bool" where
  "truthy JUndefined = False"
| "truthy JNull = False"
| "truthy (JBool b) = b"
| "truthy (JNum n) = (n \<noteq> 0)"
| "truthy (JStr s) = (s \<noteq> [])"
| "truthy (JArr xs) = True"
| "truthy (JObj kvs) = True"

text \<open>\<^verbatim>\<open>a || b\<close>: the left operand when it is truthy, the right one otherwise.\<close>

definition js_or :: "json \<Rightarrow> json \<Rightarrow> json" where
  "js_or a b = (if truthy a then a else b)"

section \<open>Identifier lists and their encoding\<close>

text \<open>
  A string is the sequence of its UTF-8 octets, which is how the identifier list
  arrives in the environment and what \<^verbatim>\<open>encodeURIComponent\<close> escapes: every octet
  that is not one of the unreserved ASCII characters
  \<^verbatim>\<open>A-Z a-z 0-9 - _ . ! ~ * ' ( )\<close> becomes \<^verbatim>\<open>%XX\<close> with upper-case hexadecimal
  digits.
\<close>

definition unreserved :: "char \<Rightarrow> bool" where
  "unreserved c \<longleftrightarrow>
     c \<in> set ''ABCDEFGHIJKLMNOPQRSTUVWXYZabcdefghijklmnopqrstuvwxyz0123456789-_.!~*()''
     \<or> c = CHR 0x27"

definition hexDigit :: "nat \<Rightarrow> char" where
  "hexDigit n = ''0123456789ABCDEF'' ! (n mod 16)"

definition percent :: "char \<Rightarrow> string" where
  "percent c = [CHR ''%'', hexDigit (of_char c div 16), hexDigit (of_char c mod 16)]"

definition encodeURIComponent :: "string \<Rightarrow> string" where
  "encodeURIComponent s = concat (map (\<lambda>c. if unreserved c then [c] else percent c) s)"

text \<open>
  \<^verbatim>\<open>s.split(sep)\<close> for a separator of one character: the pieces between the
  separators; the empty string gives one empty piece.
\<close>

fun js_split :: "char \<Rightarrow> string \<Rightarrow> string list" where
  "js_split sep [] = [[]]"
| "js_split sep (c # cs) =
     (if c = sep then [] # js_split sep cs
      else (case js_split sep cs of [] \<Rightarrow> [[c]] | w # ws \<Rightarrow> (c # w) # ws))"

definition split_comma :: "string \<Rightarrow> string list" where
  "split_comma s = js_split (CHR '','') s"

section \<open>The network and the trace of a run\<close>

text \<open>
  A run is sequential: it issues one request after the other and sleeps in between.
  The trace lists these events in the order they happen. The remote side is any
  function from the number of requests answered so far to the outcome of the next one.
  A response carries its status code and what its text turns out to be: blank
  (\<^verbatim>\<open>!text || text.trim() === ''\<close>), JSON (\<^verbatim>\<open>JSON.parse\<close> returns), or other text
  (\<^verbatim>\<open>JSON.parse\<close> throws).
\<close>

datatype payload = Blank | Json json | Raw string

record response =
  status :: nat
  statusText :: string
  body :: payload

definition ok :: "response \<Rightarrow> bool" where
  "ok r \<longleftrightarrow> 200 \<le> status r \<and> status r \<le> 299"

datatype fetch_result = Rejected string | Responded response

type_synonym network = "nat \<Rightarrow> fetch_result"

datatype http_method = GET | POST

datatype event =
    Request http_method string "json option"   \<comment> \<open>method, URL, JSON body if any\<close>
  | Sleep nat                                  \<comment> \<open>\<^verbatim>\<open>await sleep(ms)\<close>\<close>
  | Mkdir string                               \<comment> \<open>\<^verbatim>\<open>fs.mkdir(path.dirname(p), { recursive: true })\<close>\<close>
  | WriteFile string json                      \<comment> \<open>\<^verbatim>\<open>fs.writeFile(p, JSON.stringify(v, null, 2))\<close>\<close>

type_synonym trace = "event list"

fun is_request :: "event \<Rightarrow> bool" where
  "is_request (Request m u b) = True"
| "is_request e = False"

fun sleep_of :: "event \<Rightarrow> nat list" where
  "sleep_of (Sleep ms) = [ms]"
| "sleep_of e = []"

definition fetch :: "network \<Rightarrow> http_method \<Rightarrow> string \<Rightarrow> json option \<Rightarrow> trace
    \<Rightarrow> fetch_result \<times> trace" where
  "fetch net m url b tr = (net (length (filter is_request tr)), tr @ [Request m url b])"

definition sleep :: "nat \<Rightarrow> trace \<Rightarrow> trace" where
  "sleep ms tr = tr @ [Sleep ms]"

section \<open>The two-endpoint action (\<^verbatim>\<open>src/unnamed/part_000\<close>, \<^verbatim>\<open>dist/index.js\<close>)\<close>

definition triggerUrl :: string where
  "triggerUrl = ''https://glittering-chebakia-09bd42.netlify.app/.netlify/functions/catalyst-proposals-background''"

definition statusUrl :: string where
  "statusUrl = ''https://glittering-chebakia-09bd42.netlify.app/api/catalyst/status''"

definition proposalsUrl :: string where
  "proposalsUrl = ''https://glittering-chebakia-09bd42.netlify.app/api/catalyst/proposals''"

text \<open>
  What \<^verbatim>\<open>makeRequest\<close> makes of the text of a 2xx response: a success object of its
  own for a blank body, the parsed value, or a success object carrying the raw text
  when \<^verbatim>\<open>JSON.parse\<close> throws.
\<close>

fun bodyValue :: "payload \<Rightarrow> json" where
  "bodyValue Blank = JObj [(''success'', JBool True), (''message'', JStr ''Empty response'')]"
| "bodyValue (Json d) = d"
| "bodyValue (Raw t) =
     JObj [(''success'', JBool True), (''message'', JStr ''Non-JSON response''), (''raw'', JStr t)]"

text \<open>
  \<^verbatim>\<open>makeRequest(url, options)\<close>: throws when \<^verbatim>\<open>fetch\<close> rejects or the status is not
  2xx, and returns the value of the body otherwise. The only option a caller sets is
  the method.
\<close>

definition makeRequest :: "network \<Rightarrow> string \<Rightarrow> http_method \<Rightarrow> trace \<Rightarrow> (error + json) \<times> trace" where
  "makeRequest net url m tr =
     (case fetch net m url None tr of
        (Rejected msg, tr') \<Rightarrow> (Inl (FetchFailed msg), tr')
      | (Responded r, tr') \<Rightarrow>
          if \<not> ok r then (Inl (HttpError (status r) (statusText r)), tr')
          else (Inr (bodyValue (body r)), tr'))"

definition statusUrlWithParams :: "string \<Rightarrow> string" where
  "statusUrlWithParams ids = statusUrl @ ''?projectIds='' @ encodeURIComponent ids"

definition proposalsUrlWithParams :: "string \<Rightarrow> string" where
  "proposalsUrlWithParams ids = proposalsUrl @ ''?projectIds='' @ encodeURIComponent ids"

text \<open>
  The condition of line 85,
  \<^verbatim>\<open>statusData.hasData && (statusData.status === 'completed' || statusData.status === 'partial')\<close>.
  Reading \<^verbatim>\<open>hasData\<close> throws when \<^verbatim>\<open>statusData\<close> is \<^verbatim>\<open>null\<close>; after that the read
  of \<^verbatim>\<open>status\<close> cannot.
\<close>

definition hasCompleted :: "json \<Rightarrow> error + bool" where
  "hasCompleted statusData =
     (case getProp statusData ''hasData'' of
        Inl e \<Rightarrow> Inl e
      | Inr hasData \<Rightarrow>
          if \<not> truthy hasData then Inr False
          else (case getProp statusData ''status'' of
                  Inl e \<Rightarrow> Inl e
                | Inr st \<Rightarrow> Inr (st = JStr ''completed'' \<or> st = JStr ''partial'')))"

text \<open>
  The body of the \<^verbatim>\<open>try\<close> block of one polling attempt: \<open>Inr (Some v)\<close> is
  \<^verbatim>\<open>return v\<close>, \<open>Inr None\<close> is falling out of the block after the sleep, \<open>Inl e\<close>
  is a throw that the \<^verbatim>\<open>catch\<close> clause receives.
\<close>

definition tryAttempt :: "network \<Rightarrow> string \<Rightarrow> nat \<Rightarrow> trace \<Rightarrow> (error + json option) \<times> trace" where
  "tryAttempt net ids interval tr =
     (case makeRequest net (statusUrlWithParams ids) GET tr of
        (Inl e, tr1) \<Rightarrow> (Inl e, tr1)
      | (Inr statusData, tr1) \<Rightarrow>
          (case hasCompleted statusData of
             Inl e \<Rightarrow> (Inl e, tr1)
           | Inr True \<Rightarrow>
               (case makeRequest net (proposalsUrlWithParams ids) GET tr1 of
                  (Inl e, tr2) \<Rightarrow> (Inl e, tr2)
                | (Inr proposalsData, tr2) \<Rightarrow>
                    (case getProp proposalsData ''proposals'' of
                       Inl e \<Rightarrow> (Inl e, tr2)
                     | Inr v \<Rightarrow> (Inr (Some v), tr2)))
           | Inr False \<Rightarrow> (Inr None, sleep interval tr1)))"

text \<open>
  The \<^verbatim>\<open>for\<close> loop of \<^verbatim>\<open>pollUntilComplete\<close>, from the attempt counter \<open>attempt\<close> on.
  The two counts are natural numbers, as the defaults are, which are all that \<^verbatim>\<open>main\<close>
  ever passes. Inside the loop \<open>attempt < maxRetries\<close>, so \<open>maxRetries - 1\<close> is the
  number the source computes. Every request is taken to be answered or rejected: the
  program sets no timeout of its own on a call.
\<close>

function pollFrom :: "network \<Rightarrow> string \<Rightarrow> nat \<Rightarrow> nat \<Rightarrow> nat \<Rightarrow> trace \<Rightarrow> (error + json) \<times> trace" where
  "pollFrom net ids maxRetries interval attempt tr =
     (if attempt < maxRetries then
        (case tryAttempt net ids interval tr of
           (Inr (Some v), tr') \<Rightarrow> (Inr v, tr')
         | (Inr None, tr') \<Rightarrow> pollFrom net ids maxRetries interval (attempt + 1) tr'
         | (Inl e, tr') \<Rightarrow>
             if attempt = maxRetries - 1 then (Inl PollTimeoutAll, tr')
             else pollFrom net ids maxRetries interval (attempt + 1) (sleep interval tr'))
      else (Inl PollTimeout, tr))"
  by pat_completeness auto
termination
  by (relation "measure (\<lambda>(net, ids, maxRetries, interval, attempt, tr). maxRetries - attempt)") auto

declare pollFrom.simps [simp del]

text \<open>
  \<^verbatim>\<open>pollUntilComplete(ids, maxRetries = 30, interval = 10000)\<close>: an argument left out
  takes its default.
\<close>

definition pollUntilComplete :: "network \<Rightarrow> string \<Rightarrow> nat option \<Rightarrow> nat option \<Rightarrow> trace
    \<Rightarrow> (error + json) \<times> trace" where
  "pollUntilComplete net ids maxRetries interval tr =
     pollFrom net ids (case maxRetries of None \<Rightarrow> 30 | Some n \<Rightarrow> n)
       (case interval of None \<Rightarrow> 10000 | Some ms \<Rightarrow> ms) 0 tr"

text \<open>
  \<^verbatim>\<open>rawData.map(callback)\<close> with a callback that may throw: the elements are visited
  in order and the first throw ends the traversal.
\<close>

fun mapE :: "('a \<Rightarrow> error + 'b) \<Rightarrow> 'a list \<Rightarrow> error + 'b list" where
  "mapE f [] = Inr []"
| "mapE f (x # xs) =
     (case f x of
        Inl e \<Rightarrow> Inl e
      | Inr y \<Rightarrow> (case mapE f xs of Inl e \<Rightarrow> Inl e | Inr ys \<Rightarrow> Inr (y # ys)))"

text \<open>The properties copied into \<^verbatim>\<open>projectDetails\<close>, in the order of the object literal.\<close>

definition detailKeys :: "string list" where
  "detailKeys = [''id'', ''title'', ''budget'', ''milestones_qty'', ''funds_distributed'',
     ''project_id'', ''challenges'', ''name'', ''category'', ''url'', ''status'', ''finished'',
     ''voting'']"

text \<open>One entry \<^verbatim>\<open>k: project.k\<close> of an object literal.\<close>

definition readProp :: "json \<Rightarrow> string \<Rightarrow> error + string \<times> json" where
  "readProp project k = (case getProp project k of Inl e \<Rightarrow> Inl e | Inr v \<Rightarrow> Inr (k, v))"

text \<open>
  The callback of \<^verbatim>\<open>transformData\<close>. The first read,
  \<^verbatim>\<open>project.milestones_completed\<close>, throws when the element is \<^verbatim>\<open>null\<close>;
  \<^verbatim>\<open>a || b || 0\<close> associates to the left.
\<close>

definition transformProject :: "json \<Rightarrow> error + json" where
  "transformProject project =
     (case getProp project ''milestones_completed'' of
        Inl e \<Rightarrow> Inl e
      | Inr a \<Rightarrow>
          (case getProp project ''completed_milestones'' of
             Inl e \<Rightarrow> Inl e
           | Inr b \<Rightarrow>
               (case mapE (readProp project) detailKeys of
                  Inl e \<Rightarrow> Inl e
                | Inr details \<Rightarrow>
                    Inr (JObj [(''projectDetails'', JObj details),
                               (''milestonesCompleted'', js_or (js_or a b) (JNum 0))]))))"

text \<open>
  \<^verbatim>\<open>transformData(rawData)\<close>; \<open>now\<close> is what \<^verbatim>\<open>new Date().toISOString()\<close> returns
  at the call. \<^verbatim>\<open>rawData.map\<close> is a function only when \<^verbatim>\<open>rawData\<close> is an array.
\<close>

definition transformData :: "string \<Rightarrow> json \<Rightarrow> error + json" where
  "transformData now rawData =
     (case rawData of
        JArr records \<Rightarrow>
          (case mapE transformProject records of
             Inl e \<Rightarrow> Inl e
           | Inr projects \<Rightarrow> Inr (JObj [(''timestamp'', JStr now), (''projects'', JArr projects)]))
      | _ \<Rightarrow> Inl TypeError)"

text \<open>
  What a run depends on: the two inputs, the remote side, the clock reading at the
  transform, and whether the two file-system calls fail. Paths are kept as given;
  resolving them against the working directory is left out.
\<close>

record env =
  projectIdsInput :: "string option"     \<comment> \<open>\<^verbatim>\<open>process.env['INPUT_PROJECT_IDS']\<close>\<close>
  outputFileInput :: "string option"     \<comment> \<open>\<^verbatim>\<open>process.env['INPUT_OUTPUT_FILE']\<close>\<close>
  remote :: network
  clock :: string
  mkdirFails :: bool
  writeFails :: bool

definition triggerUrlWithParams :: "string \<Rightarrow> string" where
  "triggerUrlWithParams projectIds = triggerUrl @ ''?projectIds='' @ encodeURIComponent projectIds"

definition OUTPUT_FILE :: "env \<Rightarrow> string" where
  "OUTPUT_FILE env =
     (case outputFileInput env of
        None \<Rightarrow> ''data/catalyst-stats/stats.json''
      | Some f \<Rightarrow> if f = [] then ''data/catalyst-stats/stats.json'' else f)"

text \<open>
  \<^verbatim>\<open>main()\<close> together with the handler of its rejection: the exit code of the process
  and the trace. \<^verbatim>\<open>process.exit(1)\<close> ends the run where it stands. Reading
  \<^verbatim>\<open>functionResponse.success\<close> happens inside the \<^verbatim>\<open>try\<close> of the trigger.
\<close>

definition main :: "env \<Rightarrow> string \<Rightarrow> nat \<times> trace" where
  "main env projectIds =
     (case makeRequest (remote env) (triggerUrlWithParams projectIds) POST [] of
        (Inl e, tr1) \<Rightarrow> (1, tr1)
      | (Inr functionResponse, tr1) \<Rightarrow>
          (case getProp functionResponse ''success'' of
             Inl e \<Rightarrow> (1, tr1)
           | Inr success \<Rightarrow>
               (case pollUntilComplete (remote env) projectIds None None tr1 of
                  (Inl e, tr2) \<Rightarrow> (1, tr2)
                | (Inr rawResults, tr2) \<Rightarrow>
                    (case transformData (clock env) rawResults of
                       Inl e \<Rightarrow> (1, tr2)
                     | Inr transformedResults \<Rightarrow>
                         if mkdirFails env then (1, tr2 @ [Mkdir (OUTPUT_FILE env)])
                         else if writeFails env
                         then (1, tr2 @ [Mkdir (OUTPUT_FILE env),
                                         WriteFile (OUTPUT_FILE env) transformedResults])
                         else (0, tr2 @ [Mkdir (OUTPUT_FILE env),
                                         WriteFile (OUTPUT_FILE env) transformedResults])))))"

text \<open>The script: \<^verbatim>\<open>main\<close> runs only when \<^verbatim>\<open>PROJECT_IDS\<close> is truthy.\<close>

definition run :: "env \<Rightarrow> nat \<times> trace" where
  "run env =
     (case projectIdsInput env of
        None \<Rightarrow> (1, [])
      | Some projectIds \<Rightarrow> if projectIds = [] then (1, []) else main env projectIds)"

section \<open>The single-endpoint action (\<^verbatim>\<open>index.js\<close>, \<^verbatim>\<open>src/index.ts\<close>)\<close>

text \<open>
  The two files have the same \<^verbatim>\<open>pollUntilComplete\<close> and the same trigger request.
  They differ in what happens to a missing input: \<^verbatim>\<open>src/index.ts\<close> throws before
  the trigger, \<^verbatim>\<open>index.js\<close> where the input is first used. \<^verbatim>\<open>main\<close> is modelled
  from \<^verbatim>\<open>index.js\<close>.
\<close>

definition triggerUrl_single :: string where
  "triggerUrl_single = ''https://your-site.netlify.app/.netlify/functions/processProjects''"

definition pollUrl :: string where
  "pollUrl = ''https://your-site.netlify.app/api/projectStatus''"

definition pollUrlWithParams :: "string \<Rightarrow> string" where
  "pollUrlWithParams ids = pollUrl @ ''?ids='' @ encodeURIComponent ids"

text \<open>
  The \<^verbatim>\<open>for\<close> loop of this file's \<^verbatim>\<open>pollUntilComplete\<close>. Nothing is caught: a
  rejected \<^verbatim>\<open>fetch\<close>, a status that is not 2xx, a body \<^verbatim>\<open>res.json()\<close> cannot
  parse and a read on \<^verbatim>\<open>null\<close> all leave the function.
\<close>

function pollFrom_single :: "network \<Rightarrow> string \<Rightarrow> nat \<Rightarrow> nat \<Rightarrow> nat \<Rightarrow> trace
    \<Rightarrow> (error + json) \<times> trace" where
  "pollFrom_single net ids maxRetries interval attempt tr =
     (if attempt < maxRetries then
        (case fetch net GET (pollUrlWithParams ids) None tr of
           (Rejected msg, tr1) \<Rightarrow> (Inl (FetchFailed msg), tr1)
         | (Responded res, tr1) \<Rightarrow>
             if \<not> ok res then (Inl (PollingFailed (statusText res)), tr1)
             else (case body res of
                     Json data \<Rightarrow>
                       (case getProp data ''status'' of
                          Inl e \<Rightarrow> (Inl e, tr1)
                        | Inr st \<Rightarrow>
                            if st = JStr ''completed''
                            then (case getProp data ''results'' of
                                    Inl e \<Rightarrow> (Inl e, tr1)
                                  | Inr results \<Rightarrow> (Inr results, tr1))
                            else pollFrom_single net ids maxRetries interval (attempt + 1)
                                   (sleep interval tr1))
                   | _ \<Rightarrow> (Inl SyntaxError, tr1)))
      else (Inl PollTimeout, tr))"
  by pat_completeness auto
termination
  by (relation "measure (\<lambda>(net, ids, maxRetries, interval, attempt, tr). maxRetries - attempt)") auto

declare pollFrom_single.simps [simp del]

definition pollUntilComplete_single :: "network \<Rightarrow> string \<Rightarrow> nat option \<Rightarrow> nat option \<Rightarrow> trace
    \<Rightarrow> (error + json) \<times> trace" where
  "pollUntilComplete_single net ids maxRetries interval tr =
     pollFrom_single net ids (case maxRetries of None \<Rightarrow> 30 | Some n \<Rightarrow> n)
       (case interval of None \<Rightarrow> 10000 | Some ms \<Rightarrow> ms) 0 tr"

text \<open>
  The body of the trigger request is the value handed to \<^verbatim>\<open>JSON.stringify\<close>; the JSON
  text itself is not modelled.
\<close>

definition triggerBody :: "string \<Rightarrow> json" where
  "triggerBody projectIds = JObj [(''projectIds'', JArr (map JStr (split_comma projectIds)))]"

text \<open>
  \<^verbatim>\<open>main()\<close> of \<^verbatim>\<open>index.js\<close> with the handler of its rejection. An unset
  \<^verbatim>\<open>INPUT_PROJECT_IDS\<close> makes \<^verbatim>\<open>projectIds.split\<close> throw before any request; an
  unset \<^verbatim>\<open>INPUT_OUTPUT_FILE\<close> makes \<^verbatim>\<open>path.resolve\<close> throw after the poll;
  \<^verbatim>\<open>fs.writeFile\<close> rejects \<^verbatim>\<open>JSON.stringify(undefined)\<close>.
\<close>

definition main_single :: "env \<Rightarrow> nat \<times> trace" where
  "main_single env =
     (case projectIdsInput env of
        None \<Rightarrow> (1, [])
      | Some projectIds \<Rightarrow>
          (case fetch (remote env) POST triggerUrl_single (Some (triggerBody projectIds)) [] of
             (Rejected msg, tr1) \<Rightarrow> (1, tr1)
           | (Responded triggerRes, tr1) \<Rightarrow>
               if \<not> ok triggerRes then (1, tr1)
               else (case pollUntilComplete_single (remote env) projectIds None None tr1 of
                       (Inl e, tr2) \<Rightarrow> (1, tr2)
                     | (Inr results, tr2) \<Rightarrow>
                         (case outputFileInput env of
                            None \<Rightarrow> (1, tr2)
                          | Some outputFile \<Rightarrow>
                              if mkdirFails env then (1, tr2 @ [Mkdir outputFile])
                              else if results = JUndefined \<or> writeFails env
                              then (1, tr2 @ [Mkdir outputFile, WriteFile outputFile results])
                              else (0, tr2 @ [Mkdir outputFile, WriteFile outputFile results])))))"

section \<open>Decoding the identifier parameter\<close>

text \<open>
  Modelled from the spec: the side that decodes the trigger request is the remote
  service, which is not part of the repository. ``Decoded'' is taken as what a server
  does with a query string: it cuts the text after \<^verbatim>\<open>?\<close> at every \<^verbatim>\<open>&\<close>, cuts
  each piece at its first \<^verbatim>\<open>=\<close>, and replaces every \<^verbatim>\<open>%XX\<close> of the value by the
  octet it names. \<open>hexValue\<close> is the value of one hexadecimal digit, in either case.
\<close>

definition hexValue :: "char \<Rightarrow> nat option" where
  "hexValue c =
     (let n = (of_char c :: nat) in
      if 48 \<le> n \<and> n \<le> 57 then Some (n - 48)
      else if 65 \<le> n \<and> n \<le> 70 then Some (n - 55)
      else if 97 \<le> n \<and> n \<le> 102 then Some (n - 87)
      else None)"

text \<open>
  Modelled from the spec: percent-decoding, the operation the remote side applies to
  the value of a query parameter. An escape that is cut short or is not hexadecimal
  is an error.
\<close>

fun decodeURIComponent :: "string \<Rightarrow> string option" where
  "decodeURIComponent [] = Some []"
| "decodeURIComponent (c # cs) =
     (if c = CHR ''%'' then
        (case cs of
           h # l # rest \<Rightarrow>
             (case (hexValue h, hexValue l) of
                (Some a, Some b) \<Rightarrow>
                  map_option ((#) (char_of (16 * a + b))) (decodeURIComponent rest)
              | _ \<Rightarrow> None)
         | _ \<Rightarrow> None)
      else map_option ((#) c) (decodeURIComponent cs))"

text \<open>Modelled from the spec: the query string of a URL, the text after its first \<^verbatim>\<open>?\<close>.\<close>

definition queryString :: "string \<Rightarrow> string" where
  "queryString url = drop 1 (dropWhile (\<lambda>c. c \<noteq> CHR ''?'') url)"

text \<open>
  Modelled from the spec: the decoded value of the first parameter of that name in
  the query string of a URL.
\<close>

definition queryParam :: "string \<Rightarrow> string \<Rightarrow> string option" where
  "queryParam name url =
     (case filter (\<lambda>p. takeWhile (\<lambda>c. c \<noteq> CHR ''='') p = name) (js_split (CHR ''&'') (queryString url)) of
        [] \<Rightarrow> None
      | p # ps \<Rightarrow> decodeURIComponent (drop 1 (dropWhile (\<lambda>c. c \<noteq> CHR ''='') p)))"

text \<open>Modelled from the spec: the strings of a JSON array of strings, as the remote side reads the body.\<close>

fun stringOf :: "json \<Rightarrow> string option" where
  "stringOf (JStr s) = Some s"
| "stringOf v = None"

fun those_strings :: "json list \<Rightarrow> string list option" where
  "those_strings [] = Some []"
| "those_strings (v # vs) =
     (case stringOf v of
        None \<Rightarrow> None
      | Some s \<Rightarrow> map_option ((#) s) (those_strings vs))"

text \<open>
  Modelled from the spec: the identifier list the remote side obtains from a trigger
  request: from the query parameter \<^verbatim>\<open>projectIds\<close>, split at commas, when the request
  has no body; from the \<^verbatim>\<open>projectIds\<close> array of the body otherwise.
\<close>

fun decodedIds :: "event \<Rightarrow> string list option" where
  "decodedIds (Request m url None) = map_option split_comma (queryParam ''projectIds'' url)"
| "decodedIds (Request m url (Some b)) =
     (case getProp b ''projectIds'' of
        Inr (JArr vs) \<Rightarrow> those_strings vs
      | _ \<Rightarrow> None)"
| "decodedIds e = None"

section \<open>Measures on traces\<close>

definition isStatusCall :: "string \<Rightarrow> event \<Rightarrow> bool" where
  "isStatusCall ids e \<longleftrightarrow> e = Request GET (statusUrlWithParams ids) None"

definition isProposalsCall :: "string \<Rightarrow> event \<Rightarrow> bool" where
  "isProposalsCall ids e \<longleftrightarrow> e = Request GET (proposalsUrlWithParams ids) None"

fun isTriggerCall :: "event \<Rightarrow> bool" where
  "isTriggerCall (Request m url b) = (m = POST)"
| "isTriggerCall e = False"

definition statusCalls :: "string \<Rightarrow> trace \<Rightarrow> nat" where
  "statusCalls ids tr = length (filter (isStatusCall ids) tr)"

definition proposalsCalls :: "string \<Rightarrow> trace \<Rightarrow> nat" where
  "proposalsCalls ids tr = length (filter (isProposalsCall ids) tr)"

text \<open>The sleeps of a trace, and the time they add up to, in milliseconds.\<close>

definition sleeps :: "trace \<Rightarrow> nat list" where
  "sleeps tr = concat (map sleep_of tr)"

definition slept :: "trace \<Rightarrow> nat" where
  "slept tr = sum_list (sleeps tr)"

text \<open>
  For every two consecutive calls that satisfy \<open>S\<close>, the sleeps that lie between them,
  in order. \<open>afterCall S acc es\<close> is the same for a trace that follows such a call,
  \<open>acc\<close> being the sleeps seen since that call.
\<close>

fun afterCall :: "(event \<Rightarrow> bool) \<Rightarrow> nat list \<Rightarrow> trace \<Rightarrow> nat list list" where
  "afterCall S acc [] = []"
| "afterCall S acc (e # es) =
     (if S e then acc # afterCall S [] es else afterCall S (acc @ sleep_of e) es)"

fun sleepsBetween :: "(event \<Rightarrow> bool) \<Rightarrow> trace \<Rightarrow> nat list list" where
  "sleepsBetween S [] = []"
| "sleepsBetween S (e # es) = (if S e then afterCall S [] es else sleepsBetween S es)"

text \<open>
  What every run of the polling loop looks like, \<open>n\<close> attempts being left: the events
  it adds to the trace and the way it ends.
\<close>

definition pollShape :: "string \<Rightarrow> nat \<Rightarrow> nat \<Rightarrow> trace \<Rightarrow> (error + json) \<times> trace \<Rightarrow> bool" where
  "pollShape ids n I tr res \<longleftrightarrow>
     (\<exists>evs. snd res = tr @ evs
        \<and> (evs = [] \<or> isStatusCall ids (hd evs))
        \<and> set evs \<subseteq> {Request GET (statusUrlWithParams ids) None,
              Request GET (proposalsUrlWithParams ids) None, Sleep I}
        \<and> length evs \<le> 3 * n
        \<and> statusCalls ids evs \<le> n
        \<and> sleepsBetween (isStatusCall ids) evs = replicate (statusCalls ids evs - 1) [I]
        \<and> (statusCalls ids evs - 1) * I \<le> slept evs)
     \<and> ((\<exists>v. fst res = Inr v) \<or> fst res = Inl PollTimeoutAll \<or> fst res = Inl PollTimeout)"

text \<open>Remote sides for the examples: a list of outcomes, and rejection once it is used up.\<close>

definition okJson :: "json \<Rightarrow> fetch_result" where
  "okJson v = Responded \<lparr>status = 200, statusText = ''OK'', body = Json v\<rparr>"

definition serverError :: fetch_result where
  "serverError = Responded \<lparr>status = 500, statusText = ''Internal Server Error'', body = Blank\<rparr>"

definition script :: "fetch_result list \<Rightarrow> network" where
  "script rs n = (if n < length rs then rs ! n else Rejected ''fetch failed'')"

section \<open>The shape of a poll\<close>

lemma status_neq_proposals: "statusUrlWithParams ids \<noteq> proposalsUrlWithParams ids'"
  by (simp add: statusUrlWithParams_def proposalsUrlWithParams_def statusUrl_def proposalsUrl_def)

lemma tryAttempt_cases:
  "(\<exists>e. tryAttempt net ids I tr = (Inl e, tr @ [Request GET (statusUrlWithParams ids) None]))
   \<or> (\<exists>e. tryAttempt net ids I tr = (Inl e, tr @ [Request GET (statusUrlWithParams ids) None,
          Request GET (proposalsUrlWithParams ids) None]))
   \<or> (\<exists>v. tryAttempt net ids I tr = (Inr (Some v), tr @ [Request GET (statusUrlWithParams ids) None,
          Request GET (proposalsUrlWithParams ids) None]))
   \<or> tryAttempt net ids I tr = (Inr None, tr @ [Request GET (statusUrlWithParams ids) None, Sleep I])"
  by (auto simp: tryAttempt_def makeRequest_def fetch_def sleep_def
      split: prod.splits sum.splits fetch_result.splits bool.splits if_splits)

lemma sleepsBetween_example:
  "sleepsBetween (isStatusCall ''7'')
     [Request GET (statusUrlWithParams ''7'') None, Request GET (proposalsUrlWithParams ''7'') None, Sleep 5,
      Request GET (statusUrlWithParams ''7'') None, Sleep 5, Sleep 6,
      Request GET (statusUrlWithParams ''7'') None, Sleep 5]
   = [[5], [5, 6]]"
  by (simp add: isStatusCall_def status_neq_proposals [symmetric])

lemma afterCall_starts:
  "es = [] \<or> S (hd es) \<Longrightarrow> afterCall S acc es = (if es = [] then [] else acc # sleepsBetween S es)"
  by (cases es) auto

lemma pollShape_stop:
  assumes "r = [] \<or> r = [Request GET (statusUrlWithParams ids) None]
      \<or> r = [Request GET (statusUrlWithParams ids) None, Request GET (proposalsUrlWithParams ids) None]"
    and "r \<noteq> [] \<Longrightarrow> 0 < n"
    and "(\<exists>v. x = Inr v) \<or> x = Inl PollTimeoutAll \<or> x = Inl PollTimeout"
  shows "pollShape ids n I tr (x, tr @ r)"
  unfolding pollShape_def using assms
  by (auto simp: isStatusCall_def statusCalls_def slept_def sleeps_def status_neq_proposals [symmetric])

lemma pollShape_round:
  assumes run: "pollShape ids n I (tr @ r) res"
    and r: "r = [Request GET (statusUrlWithParams ids) None, Sleep I]
      \<or> r = [Request GET (statusUrlWithParams ids) None, Request GET (proposalsUrlWithParams ids) None, Sleep I]"
  shows "pollShape ids (Suc n) I tr res"
proof -
  let ?S = "isStatusCall ids"
  from run obtain evs where evs: "snd res = (tr @ r) @ evs" "evs = [] \<or> ?S (hd evs)"
      "statusCalls ids evs \<le> n"
      "sleepsBetween ?S evs = replicate (statusCalls ids evs - 1) [I]"
      "(statusCalls ids evs - 1) * I \<le> slept evs"
      "set evs \<subseteq> {Request GET (statusUrlWithParams ids) None,
              Request GET (proposalsUrlWithParams ids) None, Sleep I}"
      "length evs \<le> 3 * n"
    and res: "(\<exists>v. fst res = Inr v) \<or> fst res = Inl PollTimeoutAll \<or> fst res = Inl PollTimeout"
    unfolding pollShape_def by blast
  have cnt: "statusCalls ids (r @ evs) = Suc (statusCalls ids evs)"
    using r by (auto simp: statusCalls_def isStatusCall_def status_neq_proposals [symmetric])
  have sl: "slept (r @ evs) = I + slept evs"
    using r by (auto simp: slept_def sleeps_def)
  have hd: "?S (hd (r @ evs))"
    using r by (auto simp: isStatusCall_def)
  have after: "sleepsBetween ?S (r @ evs) = afterCall ?S [I] evs"
    using r by (auto simp: isStatusCall_def status_neq_proposals [symmetric])
  have len: "length (r @ evs) \<le> 3 * Suc n"
    using r evs(7) by auto
  have sub: "set (r @ evs) \<subseteq> {Request GET (statusUrlWithParams ids) None,
              Request GET (proposalsUrlWithParams ids) None, Sleep I}"
    using r evs(6) by auto
  have "sleepsBetween ?S (r @ evs) = replicate (statusCalls ids evs) [I]
      \<and> statusCalls ids evs * I \<le> I + slept evs"
  proof (cases evs)
    case Nil
    with after show ?thesis by (simp add: statusCalls_def)
  next
    case (Cons e es)
    with evs(2) obtain m where m: "statusCalls ids evs = Suc m"
      by (auto simp: statusCalls_def)
    have "afterCall ?S [I] evs = [I] # sleepsBetween ?S evs"
      using Cons evs(2) by simp
    with evs(4,5) m show ?thesis by (simp add: after)
  qed
  then show ?thesis
    unfolding pollShape_def using evs(1,3) res cnt sl hd len sub
    by (intro conjI exI [of _ "r @ evs"]) auto
qed

lemma pollFrom_shape: "pollShape ids (M - k) I tr (pollFrom net ids M I k tr)"
proof (induction net ids M I k tr rule: pollFrom.induct)
  case (1 net ids M I k tr)
  let ?st = "Request GET (statusUrlWithParams ids) None"
  let ?pr = "Request GET (proposalsUrlWithParams ids) None"
  show ?case
  proof (cases "k < M")
    case False
    then show ?thesis
      using pollShape_stop [of "[]" ids "M - k" "Inl PollTimeout" I tr]
      by (simp add: pollFrom.simps [of net ids M I k tr])
  next
    case True
    then have Suc: "M - k = Suc (M - (k + 1))" by simp
    from tryAttempt_cases [of net ids I tr]
    consider (thrown) e r where "tryAttempt net ids I tr = (Inl e, tr @ r)" "r = [?st] \<or> r = [?st, ?pr]"
      | (returned) v where "tryAttempt net ids I tr = (Inr (Some v), tr @ [?st, ?pr])"
      | (waiting) "tryAttempt net ids I tr = (Inr None, tr @ [?st, Sleep I])"
      by blast
    then show ?thesis
    proof cases
      case thrown
      show ?thesis
      proof (cases "k = M - 1")
        case last: True
        have "pollFrom net ids M I k tr = (Inl PollTimeoutAll, tr @ r)"
          by (subst pollFrom.simps) (use True thrown(1) last in simp)
        then show ?thesis
          using pollShape_stop [of r ids "M - k" "Inl PollTimeoutAll" I tr] thrown(2) True by auto
      next
        case False
        have eq: "pollFrom net ids M I k tr = pollFrom net ids M I (k + 1) (tr @ (r @ [Sleep I]))"
          using True thrown(1) False by (simp add: pollFrom.simps [of net ids M I k tr] sleep_def)
        have "pollShape ids (M - (k + 1)) I (tr @ (r @ [Sleep I])) (pollFrom net ids M I (k + 1) (tr @ (r @ [Sleep I])))"
          using "1.IH"(1) [OF True thrown(1) [symmetric] refl False] by (simp add: sleep_def)
        then show ?thesis
          unfolding eq Suc using thrown(2) by (intro pollShape_round [where r = "r @ [Sleep I]"]) auto
      qed
    next
      case returned
      have "pollFrom net ids M I k tr = (Inr v, tr @ [?st, ?pr])"
        using True returned by (simp add: pollFrom.simps [of net ids M I k tr])
      then show ?thesis
        using pollShape_stop [of "[?st, ?pr]" ids "M - k" "Inr v" I tr] True by auto
    next
      case waiting
      have eq: "pollFrom net ids M I k tr = pollFrom net ids M I (k + 1) (tr @ [?st, Sleep I])"
        using True waiting by (simp add: pollFrom.simps [of net ids M I k tr])
      have "pollShape ids (M - (k + 1)) I (tr @ [?st, Sleep I]) (pollFrom net ids M I (k + 1) (tr @ [?st, Sleep I]))"
        using "1.IH"(2) [OF True waiting [symmetric] refl refl] by simp
      then show ?thesis
        unfolding eq Suc by (intro pollShape_round [where r = "[?st, Sleep I]"]) auto
    qed
  qed
qed

section \<open>One attempt of the poll\<close>

lemma makeRequest_ok:
  "net (length (filter is_request tr)) = Responded r \<Longrightarrow> ok r
   \<Longrightarrow> makeRequest net url m tr = (Inr (bodyValue (body r)), tr @ [Request m url None])"
  by (simp add: makeRequest_def fetch_def)

lemma makeRequest_failed:
  "net (length (filter is_request tr)) = Rejected msg
     \<or> (\<exists>r. net (length (filter is_request tr)) = Responded r \<and> \<not> ok r)
   \<Longrightarrow> \<exists>e. makeRequest net url m tr = (Inl e, tr @ [Request m url None])"
  by (auto simp: makeRequest_def fetch_def)

lemma tryAttempt_returns:
  assumes "net (length (filter is_request tr)) = Responded r1" "ok r1"
    and "getProp (bodyValue (body r1)) ''hasData'' = Inr h" "truthy h"
    and "getProp (bodyValue (body r1)) ''status'' = Inr st"
      "st = JStr ''completed'' \<or> st = JStr ''partial''"
    and "net (Suc (length (filter is_request tr))) = Responded r2" "ok r2"
    and "getProp (bodyValue (body r2)) ''proposals'' = Inr v"
  shows "tryAttempt net ids I tr = (Inr (Some v),
    tr @ [Request GET (statusUrlWithParams ids) None, Request GET (proposalsUrlWithParams ids) None])"
proof -
  have 1: "makeRequest net (statusUrlWithParams ids) GET tr
      = (Inr (bodyValue (body r1)), tr @ [Request GET (statusUrlWithParams ids) None])"
    using assms(1,2) by (rule makeRequest_ok)
  have 2: "makeRequest net (proposalsUrlWithParams ids) GET (tr @ [Request GET (statusUrlWithParams ids) None])
      = (Inr (bodyValue (body r2)), (tr @ [Request GET (statusUrlWithParams ids) None])
          @ [Request GET (proposalsUrlWithParams ids) None])"
    using assms(7,8) by (intro makeRequest_ok) simp_all
  have 3: "hasCompleted (bodyValue (body r1)) = Inr True"
    using assms(3-6) by (auto simp: hasCompleted_def)
  show ?thesis
    by (simp add: tryAttempt_def 1 2 3 assms(9))
qed

lemma pollFrom_returned:
  "k < M \<Longrightarrow> tryAttempt net ids I tr = (Inr (Some v), tr') \<Longrightarrow> pollFrom net ids M I k tr = (Inr v, tr')"
  by (subst pollFrom.simps) simp

lemma pollFrom_waited:
  "k < M \<Longrightarrow> tryAttempt net ids I tr = (Inr None, tr')
   \<Longrightarrow> pollFrom net ids M I k tr = pollFrom net ids M I (Suc k) tr'"
  by (subst pollFrom.simps) simp

lemma pollFrom_caught:
  "k < M \<Longrightarrow> tryAttempt net ids I tr = (Inl e, tr')
   \<Longrightarrow> pollFrom net ids M I k tr =
       (if k = M - 1 then (Inl PollTimeoutAll, tr')
        else pollFrom net ids M I (Suc k) (tr' @ [Sleep I]))"
  by (subst pollFrom.simps) (simp add: sleep_def)

lemma tryAttempt_status_failed:
  assumes "net (length (filter is_request tr)) = Rejected msg
     \<or> (\<exists>r. net (length (filter is_request tr)) = Responded r \<and> \<not> ok r)"
  shows "\<exists>e. tryAttempt net ids I tr = (Inl e, tr @ [Request GET (statusUrlWithParams ids) None])"
  using makeRequest_failed [where net = net and tr = tr and url = "statusUrlWithParams ids" and m = GET, OF assms]
  by (auto simp: tryAttempt_def)

lemma tryAttempt_waits:
  assumes "net (length (filter is_request tr)) = Responded r" "ok r"
    and "getProp (bodyValue (body r)) ''hasData'' = Inr h"
    and "getProp (bodyValue (body r)) ''status'' = Inr st"
    and "\<not> (truthy h \<and> (st = JStr ''completed'' \<or> st = JStr ''partial''))"
  shows "tryAttempt net ids I tr = (Inr None, tr @ [Request GET (statusUrlWithParams ids) None, Sleep I])"
  using makeRequest_ok [where net = net and tr = tr and url = "statusUrlWithParams ids" and m = GET, OF assms(1,2)] assms(3-5)
  by (auto simp: tryAttempt_def hasCompleted_def sleep_def)

lemma tryAttempt_results_failed:
  assumes "net (length (filter is_request tr)) = Responded r1" "ok r1"
    and "getProp (bodyValue (body r1)) ''hasData'' = Inr h" "truthy h"
    and "getProp (bodyValue (body r1)) ''status'' = Inr st"
      "st = JStr ''completed'' \<or> st = JStr ''partial''"
    and "net (Suc (length (filter is_request tr))) = Rejected msg
      \<or> (\<exists>r. net (Suc (length (filter is_request tr))) = Responded r \<and> (ok r \<longrightarrow> body r = Json JNull))"
  shows "\<exists>e. tryAttempt net ids I tr = (Inl e,
    tr @ [Request GET (statusUrlWithParams ids) None, Request GET (proposalsUrlWithParams ids) None])"
proof -
  let ?tr1 = "tr @ [Request GET (statusUrlWithParams ids) None]"
  have 1: "makeRequest net (statusUrlWithParams ids) GET tr = (Inr (bodyValue (body r1)), ?tr1)"
    using assms(1,2) by (rule makeRequest_ok)
  have 3: "hasCompleted (bodyValue (body r1)) = Inr True"
    using assms(3-6) by (auto simp: hasCompleted_def)
  have n: "length (filter is_request ?tr1) = Suc (length (filter is_request tr))"
    by simp
  from assms(7) consider
      (failed) "net (length (filter is_request ?tr1)) = Rejected msg
         \<or> (\<exists>r. net (length (filter is_request ?tr1)) = Responded r \<and> \<not> ok r)"
    | (null) r where "net (length (filter is_request ?tr1)) = Responded r" "ok r" "body r = Json JNull"
    unfolding n by blast
  then show ?thesis
  proof cases
    case failed
    from makeRequest_failed [where net = net and tr = ?tr1 and url = "proposalsUrlWithParams ids" and m = GET, OF failed]
    show ?thesis by (auto simp: tryAttempt_def 1 3)
  next
    case null
    from makeRequest_ok [where net = net and tr = ?tr1 and url = "proposalsUrlWithParams ids" and m = GET, OF null(1,2)] null(3)
    show ?thesis by (simp add: tryAttempt_def 1 3)
  qed
qed


lemma fetch_failed_single:
  assumes "k < M"
    and "net (length (filter is_request tr)) = Rejected msg
      \<or> (\<exists>r. net (length (filter is_request tr)) = Responded r \<and> \<not> ok r)"
  shows "\<exists>e. pollFrom_single net ids M I k tr = (Inl e, tr @ [Request GET (pollUrlWithParams ids) None])
      \<and> e \<noteq> PollTimeout \<and> e \<noteq> PollTimeoutAll"
  using assms by (subst pollFrom_single.simps) (auto simp: fetch_def)

lemma all_failed:
  assumes "\<forall>n. (\<exists>msg. net n = Rejected msg) \<or> (\<exists>r. net n = Responded r \<and> \<not> ok r)"
  shows "k < M \<Longrightarrow> pollFrom net ids M I k tr =
      (Inl PollTimeoutAll,
       tr @ concat (replicate (M - Suc k) [Request GET (statusUrlWithParams ids) None, Sleep I])
          @ [Request GET (statusUrlWithParams ids) None])"
proof (induction "M - k" arbitrary: k tr)
  case 0
  then show ?case by simp
next
  case (Suc d)
  let ?st = "Request GET (statusUrlWithParams ids) None"
  from assms have "(\<exists>msg. net (length (filter is_request tr)) = Rejected msg)
      \<or> (\<exists>r. net (length (filter is_request tr)) = Responded r \<and> \<not> ok r)" by blast
  then obtain e where e: "tryAttempt net ids I tr = (Inl e, tr @ [?st])"
    using tryAttempt_status_failed [of net tr _ ids I] by blast
  show ?case
  proof (cases "k = M - 1")
    case True
    then have "M - Suc k = 0" by simp
    then show ?thesis
      using pollFrom_caught [OF Suc.prems e] True by simp
  next
    case False
    with Suc.prems have lt: "Suc k < M" by simp
    from Suc.hyps(2) have d: "d = M - Suc k" by simp
    have "concat (replicate (M - Suc k) [?st, Sleep I]) = [?st, Sleep I] @ concat (replicate (M - Suc (Suc k)) [?st, Sleep I])"
    proof -
      have "M - Suc k = Suc (M - Suc (Suc k))" using lt by simp
      then show ?thesis by simp
    qed
    then show ?thesis
      using pollFrom_caught [OF Suc.prems e] False Suc.hyps(1) [OF d lt, of "(tr @ [?st]) @ [Sleep I]"]
      by simp
  qed
qed

lemma single_step:
  assumes "k < M" "net (length (filter is_request tr)) = Responded r" "ok r" "body r = Json d"
    and "getProp d ''status'' = Inr st" "getProp d ''results'' = Inr res"
  shows "pollFrom_single net ids M I k tr =
      (if st = JStr ''completed'' then (Inr res, tr @ [Request GET (pollUrlWithParams ids) None])
       else pollFrom_single net ids M I (Suc k) (tr @ [Request GET (pollUrlWithParams ids) None, Sleep I]))"
  using assms by (subst pollFrom_single.simps) (simp add: fetch_def sleep_def)

section \<open>The transform\<close>

lemma mapE_Inr:
  "mapE f xs = Inr ys \<Longrightarrow> length ys = length xs \<and> (\<forall>i<length xs. f (xs ! i) = Inr (ys ! i))"
proof (induction xs arbitrary: ys)
  case Nil
  then show ?case by simp
next
  case (Cons x xs)
  from Cons.prems obtain y ys' where y: "f x = Inr y" "mapE f xs = Inr ys'" "ys = y # ys'"
    by (auto split: sum.splits)
  with Cons.IH [of ys'] show ?case
    by (auto simp: nth_Cons split: nat.splits)
qed

lemma mapE_total:
  "(\<And>x. x \<in> set xs \<Longrightarrow> \<exists>y. f x = Inr y) \<Longrightarrow> \<exists>ys. mapE f xs = Inr ys"
proof (induction xs)
  case Nil
  then show ?case by simp
next
  case (Cons x xs)
  then obtain y ys where "f x = Inr y" "mapE f xs = Inr ys"
    by (meson list.set_intros)
  then show ?case by simp
qed

lemma mapE_cong:
  "(\<And>x. x \<in> set xs \<Longrightarrow> f x = g x) \<Longrightarrow> mapE f xs = mapE g xs"
  by (induction xs) (auto split: sum.splits)

lemma getProp_defined:
  "v \<noteq> JNull \<Longrightarrow> v \<noteq> JUndefined \<Longrightarrow> \<exists>w. getProp v k = Inr w"
  by (cases v) auto

lemma readProp_Inr: "readProp project k = Inr x \<longleftrightarrow> (\<exists>v. getProp project k = Inr v \<and> x = (k, v))"
  by (auto simp: readProp_def split: sum.splits)

lemma readDetails_keys:
  "mapE (readProp project) ks = Inr details
   \<Longrightarrow> map fst details = ks \<and> (\<forall>(k, v) \<in> set details. getProp project k = Inr v)"
proof (induction ks arbitrary: details)
  case Nil
  then show ?case by simp
next
  case (Cons k ks)
  from Cons.prems obtain v ds where "getProp project k = Inr v"
      "mapE (readProp project) ks = Inr ds" "details = (k, v) # ds"
    by (auto simp: readProp_Inr split: sum.splits)
  with Cons.IH [of ds] show ?case by auto
qed

lemma transformProject_defined:
  assumes "project \<noteq> JNull" "project \<noteq> JUndefined"
  shows "\<exists>out. transformProject project = Inr out"
proof -
  obtain a b where ab: "getProp project ''milestones_completed'' = Inr a"
      "getProp project ''completed_milestones'' = Inr b"
    using getProp_defined [OF assms] by blast
  have "\<exists>ds. mapE (readProp project) detailKeys = Inr ds"
  proof (rule mapE_total)
    fix k
    obtain w where "getProp project k = Inr w" using getProp_defined [OF assms] by blast
    then show "\<exists>y. readProp project k = Inr y" by (simp add: readProp_Inr)
  qed
  then show ?thesis
    by (auto simp: transformProject_def ab)
qed

lemma alist_determined:
  "map fst xs = ks \<Longrightarrow> \<forall>(k, v) \<in> set xs. g k = v \<Longrightarrow> xs = map (\<lambda>k. (k, g k)) ks"
  by (induction xs arbitrary: ks) auto

lemma details_literal:
  assumes "transformProject project = Inr out"
  shows "\<exists>details mc. out = JObj [(''projectDetails'', JObj details), (''milestonesCompleted'', mc)]
            \<and> map fst details = [''id'', ''title'', ''budget'', ''milestones_qty'', ''funds_distributed'', ''project_id'', ''challenges'', ''name'', ''category'', ''url'', ''status'', ''finished'', ''voting'']
            \<and> (\<forall>(k, v) \<in> set details. getProp project k = Inr v)"
proof -
  from assms obtain a b details where
      d: "mapE (readProp project) detailKeys = Inr details"
      and out: "out = JObj [(''projectDetails'', JObj details),
                            (''milestonesCompleted'', js_or (js_or a b) (JNum 0))]"
    by (auto simp: transformProject_def split: sum.splits)
  from readDetails_keys [OF d] have k: "map fst details = detailKeys"
    and v: "\<forall>(k, v) \<in> set details. getProp project k = Inr v"
    by blast+
  from k have "map fst details = [''id'', ''title'', ''budget'', ''milestones_qty'', ''funds_distributed'', ''project_id'', ''challenges'', ''name'', ''category'', ''url'', ''status'', ''finished'', ''voting'']"
    by (simp only: detailKeys_def)
  with out v show ?thesis by (intro exI conjI) assumption+
qed


lemma extras_dropped:
  assumes same: "\<forall>k \<in> set [''id'', ''title'', ''budget'', ''milestones_qty'', ''funds_distributed'', ''project_id'', ''challenges'', ''name'', ''category'', ''url'', ''status'', ''finished'', ''voting''] \<union> {''milestones_completed'', ''completed_milestones''}. map_of kvs k = map_of kvs' k"
  shows "transformProject (JObj kvs) = transformProject (JObj kvs')"
proof -
  have "readProp (JObj kvs) k = readProp (JObj kvs') k" if "k \<in> set detailKeys" for k
  proof -
    from that have "k \<in> set [''id'', ''title'', ''budget'', ''milestones_qty'', ''funds_distributed'', ''project_id'', ''challenges'', ''name'', ''category'', ''url'', ''status'', ''finished'', ''voting''] \<union> {''milestones_completed'', ''completed_milestones''}"
      unfolding detailKeys_def by (rule UnI1)
    with same have "map_of kvs k = map_of kvs' k" by blast
    then show ?thesis by (simp add: readProp_def)
  qed
  then have "mapE (readProp (JObj kvs)) detailKeys = mapE (readProp (JObj kvs')) detailKeys"
    by (rule mapE_cong)
  moreover have "map_of kvs ''milestones_completed'' = map_of kvs' ''milestones_completed''"
      "map_of kvs ''completed_milestones'' = map_of kvs' ''completed_milestones''"
    using same by blast+
  ultimately show ?thesis
    by (simp add: transformProject_def)
qed

lemma first_key_wins:
  assumes "map_of kvs ''milestones_completed'' = Some a" "truthy a"
  shows "\<exists>details. transformProject (JObj kvs)
            = Inr (JObj [(''projectDetails'', JObj details), (''milestonesCompleted'', a)])"
proof -
  from transformProject_defined [of "JObj kvs"] obtain out where "transformProject (JObj kvs) = Inr out"
    by auto
  with assms show ?thesis
    by (auto simp: transformProject_def js_or_def split: sum.splits)
qed

section \<open>Encoding and decoding\<close>

lemma lt16: "(n::nat) < 16 \<Longrightarrow> n \<in> {0, 1, 2, 3, 4, 5, 6, 7, 8, 9, 10, 11, 12, 13, 14, 15}"
  unfolding insert_iff empty_iff by presburger

lemma hexValue_hexDigit: "n < 16 \<Longrightarrow> hexValue (hexDigit n) = Some n"
  by (drule lt16) (auto simp: hexDigit_def hexValue_def)

lemma hexDigit_not_amp: "hexDigit n \<noteq> CHR ''&''"
proof -
  have "n mod 16 < 16" by simp
  from lt16 [OF this] show ?thesis
    unfolding hexDigit_def by (elim insertE emptyE) simp_all
qed

lemma unreserved_plain: "unreserved c \<Longrightarrow> c \<noteq> CHR ''%'' \<and> c \<noteq> CHR ''&''"
  by (auto simp: unreserved_def)

lemma decode_percent:
  "decodeURIComponent (percent c @ s) = map_option ((#) c) (decodeURIComponent s)"
proof -
  have "(of_char c :: nat) < 256" by simp
  then have "(of_char c :: nat) div 16 < 16" by (intro less_mult_imp_div_less) simp
  then show ?thesis
    by (simp add: percent_def hexValue_hexDigit)
qed

lemma decode_encode: "decodeURIComponent (encodeURIComponent s) = Some s"
proof (induction s)
  case Nil
  then show ?case by (simp add: encodeURIComponent_def)
next
  case (Cons c s)
  have split: "encodeURIComponent (c # s) = (if unreserved c then [c] else percent c) @ encodeURIComponent s"
    by (simp add: encodeURIComponent_def)
  show ?case
  proof (cases "unreserved c")
    case True
    with Cons unreserved_plain [of c] show ?thesis by (simp add: split)
  next
    case False
    with Cons show ?thesis by (simp add: split decode_percent)
  qed
qed

lemma encode_no_amp: "CHR ''&'' \<notin> set (encodeURIComponent s)"
proof (induction s)
  case Nil
  then show ?case by (simp add: encodeURIComponent_def)
next
  case (Cons c s)
  have "encodeURIComponent (c # s) = (if unreserved c then [c] else percent c) @ encodeURIComponent s"
    by (simp add: encodeURIComponent_def)
  moreover have "CHR ''&'' \<notin> set (percent c)"
    using hexDigit_not_amp [of "of_char c div 16"] hexDigit_not_amp [of "of_char c mod 16"]
    by (simp add: percent_def)
  ultimately show ?case
    using Cons unreserved_plain [of c] by auto
qed

lemma js_split_none: "sep \<notin> set s \<Longrightarrow> js_split sep s = [s]"
  by (induction s) auto

lemma queryString_trigger:
  "queryString (triggerUrlWithParams ids) = ''projectIds='' @ encodeURIComponent ids"
  by (simp add: queryString_def triggerUrlWithParams_def triggerUrl_def)

lemma queryParam_trigger: "queryParam ''projectIds'' (triggerUrlWithParams ids) = Some ids"
proof -
  have "CHR ''&'' \<notin> set (''projectIds='' @ encodeURIComponent ids)"
    using encode_no_amp [of ids] by simp
  then have "js_split (CHR ''&'') (queryString (triggerUrlWithParams ids))
      = [''projectIds='' @ encodeURIComponent ids]"
    unfolding queryString_trigger by (rule js_split_none)
  then show ?thesis
    by (simp add: queryParam_def decode_encode)
qed

lemma those_strings_JStr: "those_strings (map JStr xs) = Some xs"
  by (induction xs) auto


section \<open>The trace of a run\<close>

lemma poll_no_trigger:
  "\<exists>evs. snd (pollUntilComplete net ids maxRetries interval tr) = tr @ evs \<and> filter isTriggerCall evs = []"
proof -
  let ?M = "case maxRetries of None \<Rightarrow> 30 | Some n \<Rightarrow> n"
  let ?I = "case interval of None \<Rightarrow> 10000 | Some ms \<Rightarrow> ms"
  from pollFrom_shape [of ids ?M 0 ?I tr net]
  obtain evs where evs: "snd (pollFrom net ids ?M ?I 0 tr) = tr @ evs"
      "set evs \<subseteq> {Request GET (statusUrlWithParams ids) None,
          Request GET (proposalsUrlWithParams ids) None, Sleep ?I}"
    unfolding pollShape_def by blast
  have "\<forall>e \<in> set evs. \<not> isTriggerCall e"
    using evs(2) by auto
  then have "filter isTriggerCall evs = []"
    by (simp add: filter_empty_conv)
  with evs(1) show ?thesis
    unfolding pollUntilComplete_def by blast
qed

lemma pollFrom_single_no_trigger:
  "\<exists>evs. snd (pollFrom_single net ids M I k tr) = tr @ evs \<and> filter isTriggerCall evs = []"
proof (induction net ids M I k tr rule: pollFrom_single.induct)
  case (1 net ids M I k tr)
  let ?rq = "Request GET (pollUrlWithParams ids) None"
  show ?case
  proof (cases "k < M \<and> (\<exists>res d st. net (length (filter is_request tr)) = Responded res \<and> ok res
      \<and> body res = Json d \<and> getProp d ''status'' = Inr st \<and> st \<noteq> JStr ''completed'')")
    case True
    then obtain res d st where c: "k < M" "net (length (filter is_request tr)) = Responded res" "ok res"
        "body res = Json d" "getProp d ''status'' = Inr st" "st \<noteq> JStr ''completed''"
      by blast
    have f: "fetch net GET (pollUrlWithParams ids) None tr = (Responded res, tr @ [?rq])"
      using c(2) by (simp add: fetch_def)
    have eq: "pollFrom_single net ids M I k tr = pollFrom_single net ids M I (k + 1) (tr @ [?rq, Sleep I])"
      by (subst pollFrom_single.simps) (simp add: c f sleep_def)
    have nn: "\<not> \<not> ok res" using c(3) by simp
    from "1.IH" [OF c(1) f [symmetric] refl nn c(4) c(5) c(6)]
    obtain evs where "snd (pollFrom_single net ids M I (k + 1) (tr @ [?rq, Sleep I])) = (tr @ [?rq, Sleep I]) @ evs"
        "filter isTriggerCall evs = []"
      by (auto simp: sleep_def)
    then show ?thesis
      unfolding eq by (intro exI [of _ "[?rq, Sleep I] @ evs"]) simp
  next
    case False
    then have "snd (pollFrom_single net ids M I k tr) = tr \<or> snd (pollFrom_single net ids M I k tr) = tr @ [?rq]"
      by (subst (1 2) pollFrom_single.simps)
        (auto simp: fetch_def split: fetch_result.splits payload.splits sum.splits)
    then show ?thesis
      by (elim disjE) (simp, intro exI [of _ "[?rq]"], simp)
  qed
qed

lemma main_trace:
  "\<exists>rest. snd (main env projectIds) = Request POST (triggerUrlWithParams projectIds) None # rest
     \<and> filter isTriggerCall rest = []"
proof -
  let ?tg = "Request POST (triggerUrlWithParams projectIds) None"
  obtain evs where evs: "snd (pollUntilComplete (remote env) projectIds None None [?tg]) = [?tg] @ evs"
      "filter isTriggerCall evs = []"
    using poll_no_trigger by blast
  show ?thesis
    using evs
    by (cases "pollUntilComplete (remote env) projectIds None None [?tg]")
      (auto simp: main_def makeRequest_def fetch_def
        split: fetch_result.splits sum.splits prod.splits)
qed

lemma main_single_trace:
  assumes "projectIdsInput env = Some projectIds"
  shows "\<exists>rest. snd (main_single env) = Request POST triggerUrl_single (Some (triggerBody projectIds)) # rest
     \<and> filter isTriggerCall rest = []"
proof -
  let ?tg = "Request POST triggerUrl_single (Some (triggerBody projectIds))"
  obtain evs where evs: "snd (pollFrom_single (remote env) projectIds 30 10000 0 [?tg]) = [?tg] @ evs"
      "filter isTriggerCall evs = []"
    using pollFrom_single_no_trigger by blast
  show ?thesis
    using evs assms
    by (cases "pollFrom_single (remote env) projectIds 30 10000 0 [?tg]")
      (auto simp: main_single_def fetch_def pollUntilComplete_single_def
        split: fetch_result.splits sum.splits prod.splits option.splits)
qed

section \<open>The claims\<close>

text \<open>
  C1, as amended. In the two-endpoint poller, take an attempt whose status request is
  answered 2xx with a value other than \<^verbatim>\<open>null\<close>, \<open>h\<close> being its \<^verbatim>\<open>hasData\<close> and
  \<open>st\<close> its \<^verbatim>\<open>status\<close>. The attempt goes on to the results fetch exactly when \<open>h\<close> is
  truthy and \<open>st\<close> is \<^verbatim>\<open>'completed'\<close> or \<^verbatim>\<open>'partial'\<close>. When it does and the results
  fetch is answered 2xx with a value other than \<^verbatim>\<open>null\<close>, the poller returns the
  \<^verbatim>\<open>proposals\<close> property of that value, at any attempt, the last allowed one
  included. When it does not, the attempt does not return: the poller sleeps and
  moves to the next attempt. In the single-endpoint poller the condition is
  \<^verbatim>\<open>status === 'completed'\<close> alone and the value returned is the \<^verbatim>\<open>results\<close>
  property of the status response.
\<close>

theorem completion_predicate:
  "(k < M \<and> net (length (filter is_request tr)) = Responded r \<and> ok r
      \<and> getProp (bodyValue (body r)) ''hasData'' = Inr h
      \<and> getProp (bodyValue (body r)) ''status'' = Inr st
    \<longrightarrow> ((snd (tryAttempt net ids I tr) = tr @ [Request GET (statusUrlWithParams ids) None,
                 Request GET (proposalsUrlWithParams ids) None])
           = (truthy h \<and> (st = JStr ''completed'' \<or> st = JStr ''partial'')))
       \<and> (truthy h \<and> (st = JStr ''completed'' \<or> st = JStr ''partial'')
            \<and> net (Suc (length (filter is_request tr))) = Responded r2 \<and> ok r2
            \<and> getProp (bodyValue (body r2)) ''proposals'' = Inr v
          \<longrightarrow> pollFrom net ids M I k tr =
                (Inr v, tr @ [Request GET (statusUrlWithParams ids) None,
                              Request GET (proposalsUrlWithParams ids) None]))
       \<and> (\<not> (truthy h \<and> (st = JStr ''completed'' \<or> st = JStr ''partial''))
          \<longrightarrow> pollFrom net ids M I k tr =
                pollFrom net ids M I (Suc k)
                  (tr @ [Request GET (statusUrlWithParams ids) None, Sleep I])))
   \<and> (k < M \<and> net (length (filter is_request tr)) = Responded r \<and> ok r \<and> body r = Json d
        \<and> getProp d ''status'' = Inr st \<and> getProp d ''results'' = Inr res
      \<longrightarrow> pollFrom_single net ids M I k tr =
            (if st = JStr ''completed''
             then (Inr res, tr @ [Request GET (pollUrlWithParams ids) None])
             else pollFrom_single net ids M I (Suc k)
                    (tr @ [Request GET (pollUrlWithParams ids) None, Sleep I])))"
proof (intro conjI impI)
  let ?st = "Request GET (statusUrlWithParams ids) None"
  let ?pr = "Request GET (proposalsUrlWithParams ids) None"
  let ?sat = "truthy h \<and> (st = JStr ''completed'' \<or> st = JStr ''partial'')"
  assume a: "k < M \<and> net (length (filter is_request tr)) = Responded r \<and> ok r
      \<and> getProp (bodyValue (body r)) ''hasData'' = Inr h
      \<and> getProp (bodyValue (body r)) ''status'' = Inr st"
  have waits: "\<not> ?sat \<Longrightarrow> tryAttempt net ids I tr = (Inr None, tr @ [?st, Sleep I])"
    using a by (intro tryAttempt_waits [where r = r and h = h and st = st]) auto
  have 1: "makeRequest net (statusUrlWithParams ids) GET tr = (Inr (bodyValue (body r)), tr @ [?st])"
    using a by (intro makeRequest_ok) auto
  have fetches: "?sat \<Longrightarrow> snd (tryAttempt net ids I tr) = tr @ [?st, ?pr]"
    using a by (auto simp: tryAttempt_def 1 hasCompleted_def makeRequest_def [of _ "proposalsUrlWithParams ids"]
        fetch_def split: fetch_result.splits sum.splits)
  show "(snd (tryAttempt net ids I tr) = tr @ [?st, ?pr]) = ?sat"
    using fetches waits by (cases ?sat) auto
  show "pollFrom net ids M I k tr = pollFrom net ids M I (Suc k) (tr @ [?st, Sleep I])"
    if "\<not> ?sat"
    using pollFrom_waited [of k M net ids I tr] waits [OF that] a by simp
  show "pollFrom net ids M I k tr = (Inr v, tr @ [?st, ?pr])"
    if b: "truthy h \<and> (st = JStr ''completed'' \<or> st = JStr ''partial'')
        \<and> net (Suc (length (filter is_request tr))) = Responded r2 \<and> ok r2
        \<and> getProp (bodyValue (body r2)) ''proposals'' = Inr v"
  proof -
    have "tryAttempt net ids I tr = (Inr (Some v), tr @ [?st, ?pr])"
      using a b by (intro tryAttempt_returns [where ?r1.0 = r and ?r2.0 = r2 and h = h and st = st]) auto
    then show ?thesis using pollFrom_returned a by simp
  qed
next
  assume "k < M \<and> net (length (filter is_request tr)) = Responded r \<and> ok r \<and> body r = Json d
        \<and> getProp d ''status'' = Inr st \<and> getProp d ''results'' = Inr res"
  then show "pollFrom_single net ids M I k tr =
            (if st = JStr ''completed''
             then (Inr res, tr @ [Request GET (pollUrlWithParams ids) None])
             else pollFrom_single net ids M I (Suc k)
                    (tr @ [Request GET (pollUrlWithParams ids) None, Sleep I]))"
    using single_step [of k M net tr r d st res ids I] by simp
qed


theorem completion_predicate_witness:
  "pollFrom (script [okJson (JObj [(''hasData'', JBool False), (''status'', JStr ''pending'')]),
                     okJson (JObj [(''hasData'', JBool False), (''status'', JStr ''pending'')]),
                     okJson (JObj [(''hasData'', JBool True), (''status'', JStr ''partial'')]),
                     okJson (JObj [(''proposals'', JArr [JObj [(''id'', JNum 7)]])])])
     ''7'' 3 10000 2
     [Request GET (statusUrlWithParams ''7'') None, Sleep 10000,
      Request GET (statusUrlWithParams ''7'') None, Sleep 10000]
   = (Inr (JArr [JObj [(''id'', JNum 7)]]),
      [Request GET (statusUrlWithParams ''7'') None, Sleep 10000,
       Request GET (statusUrlWithParams ''7'') None, Sleep 10000,
       Request GET (statusUrlWithParams ''7'') None, Request GET (proposalsUrlWithParams ''7'') None])
   \<and> pollFrom (script [okJson (JObj [(''hasData'', JBool True), (''status'', JStr ''pending'')])])
       ''7'' 3 10000 0 []
     = pollFrom (script [okJson (JObj [(''hasData'', JBool True), (''status'', JStr ''pending'')])])
         ''7'' 3 10000 1 [Request GET (statusUrlWithParams ''7'') None, Sleep 10000]
   \<and> pollFrom_single (script [okJson (JObj [(''status'', JStr ''completed''), (''results'', JArr [])])])
       ''7'' 3 10000 0 []
     = (Inr (JArr []), [Request GET (pollUrlWithParams ''7'') None])"
  using completion_predicate [where k = 2 and M = 3 and ids = "''7''" and I = 10000
      and net = "script [okJson (JObj [(''hasData'', JBool False), (''status'', JStr ''pending'')]),
                     okJson (JObj [(''hasData'', JBool False), (''status'', JStr ''pending'')]),
                     okJson (JObj [(''hasData'', JBool True), (''status'', JStr ''partial'')]),
                     okJson (JObj [(''proposals'', JArr [JObj [(''id'', JNum 7)]])])]"
      and tr = "[Request GET (statusUrlWithParams ''7'') None, Sleep 10000,
                 Request GET (statusUrlWithParams ''7'') None, Sleep 10000]"
      and r = "\<lparr>status = 200, statusText = ''OK'',
                 body = Json (JObj [(''hasData'', JBool True), (''status'', JStr ''partial'')])\<rparr>"
      and h = "JBool True" and st = "JStr ''partial''"
      and ?r2.0 = "\<lparr>status = 200, statusText = ''OK'',
                 body = Json (JObj [(''proposals'', JArr [JObj [(''id'', JNum 7)]])])\<rparr>"
      and v = "JArr [JObj [(''id'', JNum 7)]]"]
    completion_predicate [where k = 0 and M = 3 and ids = "''7''" and I = 10000
      and net = "script [okJson (JObj [(''hasData'', JBool True), (''status'', JStr ''pending'')])]"
      and tr = "[]"
      and r = "\<lparr>status = 200, statusText = ''OK'',
                 body = Json (JObj [(''hasData'', JBool True), (''status'', JStr ''pending'')])\<rparr>"
      and h = "JBool True" and st = "JStr ''pending''"]
    completion_predicate [where k = 0 and M = 3 and ids = "''7''" and I = 10000
      and net = "script [okJson (JObj [(''status'', JStr ''completed''), (''results'', JArr [])])]"
      and tr = "[]"
      and r = "\<lparr>status = 200, statusText = ''OK'',
                 body = Json (JObj [(''status'', JStr ''completed''), (''results'', JArr [])])\<rparr>"
      and d = "JObj [(''status'', JStr ''completed''), (''results'', JArr [])]"
      and st = "JStr ''completed''" and res = "JArr []"]
  by (simp add: script_def okJson_def ok_def)

theorem completion_predicate_counterexample:
  "pollUntilComplete
     (script [okJson (JObj [(''hasData'', JNum 1), (''status'', JStr ''completed'')]),
              okJson (JObj [(''proposals'', JArr [])])])
     ''7'' None None []
   = (Inr (JArr []),
      [Request GET (statusUrlWithParams ''7'') None, Request GET (proposalsUrlWithParams ''7'') None])
   \<and> JNum 1 \<noteq> JBool True
   \<and> pollUntilComplete
       (script [okJson (JObj [(''hasData'', JBool True), (''status'', JStr ''partial'')]), serverError])
       ''7'' (Some 1) None []
     = (Inl PollTimeoutAll,
        [Request GET (statusUrlWithParams ''7'') None, Request GET (proposalsUrlWithParams ''7'') None])
   \<and> pollUntilComplete_single
       (script [okJson (JObj [(''hasData'', JBool True), (''status'', JStr ''partial''),
                              (''results'', JArr [])])])
       ''7'' (Some 1) None []
     = (Inl PollTimeout, [Request GET (pollUrlWithParams ''7'') None, Sleep 10000])"
  by (simp add: pollUntilComplete_def pollFrom.simps tryAttempt_def makeRequest_def fetch_def
      hasCompleted_def sleep_def script_def okJson_def serverError_def ok_def
      pollUntilComplete_single_def pollFrom_single.simps)

text \<open>
  C2, as amended. In the two-endpoint poller an attempt whose status request is
  rejected or answered with a status that is not 2xx does not end the poll: on the
  last allowed attempt the poller raises ``Polling timed out after all attempts.'',
  on any earlier one it sleeps for the interval and makes the next attempt. A 2xx body
  that is not JSON raises nothing and is retried after the interval like any response
  without data. When every status request fails and at least one attempt is allowed,
  the poll makes all its attempts and ends with that timeout error. The single-endpoint
  poller catches nothing: there the first failing request ends the poll with an error
  that is not a timeout.
\<close>

theorem failed_attempt_retried:
  "(k < M \<and> (net (length (filter is_request tr)) = Rejected msg
        \<or> (\<exists>r. net (length (filter is_request tr)) = Responded r \<and> \<not> ok r))
      \<longrightarrow> pollFrom net ids M I k tr =
            (if k = M - 1 then (Inl PollTimeoutAll, tr @ [Request GET (statusUrlWithParams ids) None])
             else pollFrom net ids M I (Suc k)
                    (tr @ [Request GET (statusUrlWithParams ids) None, Sleep I])))
   \<and> (k < M \<and> net (length (filter is_request tr)) = Responded r \<and> ok r \<and> body r = Raw t
      \<longrightarrow> pollFrom net ids M I k tr =
            pollFrom net ids M I (Suc k) (tr @ [Request GET (statusUrlWithParams ids) None, Sleep I]))
   \<and> ((\<forall>n. (\<exists>msg. net n = Rejected msg) \<or> (\<exists>r. net n = Responded r \<and> \<not> ok r)) \<and> maxRetries \<noteq> Some 0
      \<longrightarrow> fst (pollUntilComplete net ids maxRetries interval tr) = Inl PollTimeoutAll
          \<and> statusCalls ids (drop (length tr) (snd (pollUntilComplete net ids maxRetries interval tr)))
              = (case maxRetries of None \<Rightarrow> 30 | Some n \<Rightarrow> n))
   \<and> (k < M \<and> (net (length (filter is_request tr)) = Rejected msg
        \<or> (\<exists>r. net (length (filter is_request tr)) = Responded r \<and> \<not> ok r))
      \<longrightarrow> (\<exists>e. pollFrom_single net ids M I k tr
                  = (Inl e, tr @ [Request GET (pollUrlWithParams ids) None])
               \<and> e \<noteq> PollTimeout \<and> e \<noteq> PollTimeoutAll))"
proof (intro conjI impI)
  assume a: "k < M \<and> (net (length (filter is_request tr)) = Rejected msg
        \<or> (\<exists>r. net (length (filter is_request tr)) = Responded r \<and> \<not> ok r))"
  then obtain e where "tryAttempt net ids I tr = (Inl e, tr @ [Request GET (statusUrlWithParams ids) None])"
    using tryAttempt_status_failed [of net tr msg ids I] by blast
  with a show "pollFrom net ids M I k tr =
            (if k = M - 1 then (Inl PollTimeoutAll, tr @ [Request GET (statusUrlWithParams ids) None])
             else pollFrom net ids M I (Suc k)
                    (tr @ [Request GET (statusUrlWithParams ids) None, Sleep I]))"
    using pollFrom_caught [of k M net ids I tr e] by simp
next
  assume a: "k < M \<and> net (length (filter is_request tr)) = Responded r \<and> ok r \<and> body r = Raw t"
  then have "tryAttempt net ids I tr = (Inr None, tr @ [Request GET (statusUrlWithParams ids) None, Sleep I])"
    by (intro tryAttempt_waits [where r = r and h = JUndefined and st = JUndefined]) auto
  with a show "pollFrom net ids M I k tr =
            pollFrom net ids M I (Suc k) (tr @ [Request GET (statusUrlWithParams ids) None, Sleep I])"
    using pollFrom_waited by simp
next
  let ?M = "case maxRetries of None \<Rightarrow> 30 | Some n \<Rightarrow> n"
  let ?I = "case interval of None \<Rightarrow> 10000 | Some ms \<Rightarrow> ms"
  let ?st = "Request GET (statusUrlWithParams ids) None"
  assume a: "(\<forall>n. (\<exists>msg. net n = Rejected msg) \<or> (\<exists>r. net n = Responded r \<and> \<not> ok r)) \<and> maxRetries \<noteq> Some 0"
  then have pos: "0 < ?M" by (cases maxRetries) auto
  from a have run: "pollUntilComplete net ids maxRetries interval tr =
      (Inl PollTimeoutAll, tr @ concat (replicate (?M - Suc 0) [?st, Sleep ?I]) @ [?st])"
    unfolding pollUntilComplete_def using all_failed [of net 0 ?M ids ?I tr] pos by blast
  show "fst (pollUntilComplete net ids maxRetries interval tr) = Inl PollTimeoutAll"
    by (simp add: run)
  have "statusCalls ids (concat (replicate n [?st, Sleep ?I])) = n" for n
    by (induction n) (auto simp: statusCalls_def isStatusCall_def)
  then have "statusCalls ids (concat (replicate (?M - Suc 0) [?st, Sleep ?I]) @ [?st]) = ?M"
    using pos by (simp add: statusCalls_def isStatusCall_def)
  then show "statusCalls ids (drop (length tr) (snd (pollUntilComplete net ids maxRetries interval tr))) = ?M"
    by (simp add: run)
next
  assume "k < M \<and> (net (length (filter is_request tr)) = Rejected msg
        \<or> (\<exists>r. net (length (filter is_request tr)) = Responded r \<and> \<not> ok r))"
  then show "\<exists>e. pollFrom_single net ids M I k tr
                  = (Inl e, tr @ [Request GET (pollUrlWithParams ids) None])
               \<and> e \<noteq> PollTimeout \<and> e \<noteq> PollTimeoutAll"
    using fetch_failed_single [of k M net tr msg ids I] by blast
qed


theorem failed_attempt_retried_witness:
  "pollFrom (script []) ''7'' 2 5 0 []
     = pollFrom (script []) ''7'' 2 5 1 [Request GET (statusUrlWithParams ''7'') None, Sleep 5]
   \<and> pollFrom (script []) ''7'' 2 5 1 [Request GET (statusUrlWithParams ''7'') None, Sleep 5]
     = (Inl PollTimeoutAll,
        [Request GET (statusUrlWithParams ''7'') None, Sleep 5, Request GET (statusUrlWithParams ''7'') None])
   \<and> pollFrom (script [Responded \<lparr>status = 200, statusText = ''OK'', body = Raw ''<html>''\<rparr>])
       ''7'' 2 5 0 []
     = pollFrom (script [Responded \<lparr>status = 200, statusText = ''OK'', body = Raw ''<html>''\<rparr>])
         ''7'' 2 5 1 [Request GET (statusUrlWithParams ''7'') None, Sleep 5]
   \<and> fst (pollUntilComplete (script []) ''7'' None None []) = Inl PollTimeoutAll
   \<and> statusCalls ''7'' (snd (pollUntilComplete (script []) ''7'' None None [])) = 30
   \<and> (\<exists>e. pollFrom_single (script []) ''7'' 2 5 0 []
            = (Inl e, [Request GET (pollUrlWithParams ''7'') None])
          \<and> e \<noteq> PollTimeout \<and> e \<noteq> PollTimeoutAll)"
  using failed_attempt_retried [where k = 0 and M = 2 and net = "script []" and tr = "[]"
      and msg = "''fetch failed''" and ids = "''7''" and I = 5 and maxRetries = None and interval = None]
    failed_attempt_retried [where k = 1 and M = 2 and net = "script []"
      and tr = "[Request GET (statusUrlWithParams ''7'') None, Sleep 5]"
      and msg = "''fetch failed''" and ids = "''7''" and I = 5]
    failed_attempt_retried [where k = 0 and M = 2 and tr = "[]" and ids = "''7''" and I = 5
      and net = "script [Responded \<lparr>status = 200, statusText = ''OK'', body = Raw ''<html>''\<rparr>]"
      and r = "\<lparr>status = 200, statusText = ''OK'', body = Raw ''<html>''\<rparr>" and t = "''<html>''"]
  by (simp add: script_def ok_def)

theorem failed_attempt_retried_counterexample:
  "pollUntilComplete_single
     (script [serverError, okJson (JObj [(''status'', JStr ''completed''), (''results'', JArr [])])])
     ''7'' None None []
   = (Inl (PollingFailed ''Internal Server Error''), [Request GET (pollUrlWithParams ''7'') None])
   \<and> pollUntilComplete_single
       (script [Rejected ''fetch failed'',
                okJson (JObj [(''status'', JStr ''completed''), (''results'', JArr [])])])
       ''7'' None None []
     = (Inl (FetchFailed ''fetch failed''), [Request GET (pollUrlWithParams ''7'') None])
   \<and> pollUntilComplete_single
       (script [Responded \<lparr>status = 200, statusText = ''OK'', body = Raw ''<html>''\<rparr>,
                okJson (JObj [(''status'', JStr ''completed''), (''results'', JArr [])])])
       ''7'' None None []
     = (Inl SyntaxError, [Request GET (pollUrlWithParams ''7'') None])"
  by (simp add: pollUntilComplete_single_def pollFrom_single.simps fetch_def script_def
      serverError_def ok_def)

text \<open>
  C3. Whatever the remote side does, \<^verbatim>\<open>pollUntilComplete\<close> adds finitely many events
  to the trace, among them at most \<open>maxRetries\<close> status calls (30 when the argument is
  left out); it ends by returning a value or by raising one of its two timeout errors;
  between any two consecutive status calls it sleeps exactly once, for the configured
  interval (10000 ms when left out); and the time slept is at least the number of
  status calls minus one, times the interval.
\<close>

theorem pollUntilComplete_bounded:
  "\<exists>evs. snd (pollUntilComplete net ids maxRetries interval tr) = tr @ evs
     \<and> statusCalls ids evs \<le> (case maxRetries of None \<Rightarrow> 30 | Some n \<Rightarrow> n)
     \<and> length evs \<le> 3 * (case maxRetries of None \<Rightarrow> 30 | Some n \<Rightarrow> n)
     \<and> sleepsBetween (isStatusCall ids) evs
         = replicate (statusCalls ids evs - 1) [case interval of None \<Rightarrow> 10000 | Some ms \<Rightarrow> ms]
     \<and> (statusCalls ids evs - 1) * (case interval of None \<Rightarrow> 10000 | Some ms \<Rightarrow> ms) \<le> slept evs
     \<and> ((\<exists>v. fst (pollUntilComplete net ids maxRetries interval tr) = Inr v)
        \<or> fst (pollUntilComplete net ids maxRetries interval tr) = Inl PollTimeoutAll
        \<or> fst (pollUntilComplete net ids maxRetries interval tr) = Inl PollTimeout)"
  using pollFrom_shape [of ids "case maxRetries of None \<Rightarrow> 30 | Some n \<Rightarrow> n" 0
      "case interval of None \<Rightarrow> 10000 | Some ms \<Rightarrow> ms" tr net]
  unfolding pollShape_def pollUntilComplete_def by auto

text \<open>
  C4, as amended. If the first status request is answered 2xx with
  \<^verbatim>\<open>hasData: true, status: "completed"\<close> and the results fetch that follows is answered
  2xx with a value other than \<^verbatim>\<open>null\<close>, then \<^verbatim>\<open>pollUntilComplete\<close> (with at least one
  attempt allowed) makes exactly one status call and exactly one results fetch, does
  not sleep, and returns the \<^verbatim>\<open>proposals\<close> property of the results payload.
\<close>

theorem first_call_completed:
  assumes "net (length (filter is_request tr)) = Responded r1" "ok r1"
    and "getProp (bodyValue (body r1)) ''hasData'' = Inr (JBool True)"
    and "getProp (bodyValue (body r1)) ''status'' = Inr (JStr ''completed'')"
    and "net (Suc (length (filter is_request tr))) = Responded r2" "ok r2"
    and "getProp (bodyValue (body r2)) ''proposals'' = Inr v"
    and "maxRetries \<noteq> Some 0"
  shows "\<exists>evs. pollUntilComplete net ids maxRetries interval tr = (Inr v, tr @ evs)
      \<and> evs = [Request GET (statusUrlWithParams ids) None, Request GET (proposalsUrlWithParams ids) None]
      \<and> statusCalls ids evs = 1 \<and> proposalsCalls ids evs = 1 \<and> sleeps evs = []"
proof -
  have "tryAttempt net ids (case interval of None \<Rightarrow> 10000 | Some ms \<Rightarrow> ms) tr = (Inr (Some v),
    tr @ [Request GET (statusUrlWithParams ids) None, Request GET (proposalsUrlWithParams ids) None])"
    using assms(1-7) by (intro tryAttempt_returns [where h = "JBool True"]) auto
  moreover have "0 < (case maxRetries of None \<Rightarrow> 30 | Some n \<Rightarrow> n)"
    using assms(8) by (cases maxRetries) auto
  ultimately show ?thesis
    by (simp add: pollUntilComplete_def pollFrom.simps [of _ _ _ _ 0] statusCalls_def proposalsCalls_def
        sleeps_def isStatusCall_def isProposalsCall_def status_neq_proposals status_neq_proposals [symmetric])
qed

theorem first_call_completed_witness:
  "pollUntilComplete
     (script [okJson (JObj [(''hasData'', JBool True), (''status'', JStr ''completed'')]),
              okJson (JObj [(''proposals'', JArr [JObj [(''id'', JNum 1)]])])])
     ''1,2'' None None []
   = (Inr (JArr [JObj [(''id'', JNum 1)]]),
      [Request GET (statusUrlWithParams ''1,2'') None, Request GET (proposalsUrlWithParams ''1,2'') None])"
  using first_call_completed [of
      "script [okJson (JObj [(''hasData'', JBool True), (''status'', JStr ''completed'')]),
               okJson (JObj [(''proposals'', JArr [JObj [(''id'', JNum 1)]])])]"
      "[]" "\<lparr>status = 200, statusText = ''OK'', body = Json (JObj [(''hasData'', JBool True), (''status'', JStr ''completed'')])\<rparr>"
      "\<lparr>status = 200, statusText = ''OK'', body = Json (JObj [(''proposals'', JArr [JObj [(''id'', JNum 1)]])])\<rparr>"
      "JArr [JObj [(''id'', JNum 1)]]" None "''1,2''" None]
  by (simp add: script_def okJson_def ok_def)

theorem first_call_completed_counterexample:
  "pollUntilComplete
     (script [okJson (JObj [(''hasData'', JBool True), (''status'', JStr ''completed'')]),
              serverError,
              okJson (JObj [(''hasData'', JBool True), (''status'', JStr ''completed'')]),
              okJson (JObj [(''proposals'', JArr [])])])
     ''1'' None None []
   = (Inr (JArr []),
      [Request GET (statusUrlWithParams ''1'') None, Request GET (proposalsUrlWithParams ''1'') None,
       Sleep 10000,
       Request GET (statusUrlWithParams ''1'') None, Request GET (proposalsUrlWithParams ''1'') None])"
  by (simp add: pollUntilComplete_def pollFrom.simps tryAttempt_def makeRequest_def fetch_def
      hasCompleted_def sleep_def script_def okJson_def serverError_def ok_def)


text \<open>
  C5. In both variants the trigger is the first event of \<^verbatim>\<open>main\<close> and the only
  \<^verbatim>\<open>POST\<close> request of its trace; a run whose identifier list is missing issues none.
  When the trigger is rejected or answered with a status that is not 2xx, the run ends
  there with exit code 1: nothing follows the trigger request in the trace, neither a
  second trigger nor a poll.
\<close>

theorem trigger_failure_is_fatal:
  "((remote env 0 = Rejected msg \<or> (\<exists>r. remote env 0 = Responded r \<and> \<not> ok r))
      \<longrightarrow> main env projectIds = (1, [Request POST (triggerUrlWithParams projectIds) None]))
   \<and> ((remote env 0 = Rejected msg \<or> (\<exists>r. remote env 0 = Responded r \<and> \<not> ok r))
        \<and> projectIdsInput env = Some projectIds
      \<longrightarrow> main_single env = (1, [Request POST triggerUrl_single (Some (triggerBody projectIds))]))
   \<and> ((remote env 0 = Rejected msg \<or> (\<exists>r. remote env 0 = Responded r \<and> \<not> ok r))
        \<and> projectIdsInput env = Some projectIds \<and> projectIds \<noteq> []
      \<longrightarrow> run env = (1, [Request POST (triggerUrlWithParams projectIds) None]))
   \<and> (\<exists>rest. snd (main env projectIds) = Request POST (triggerUrlWithParams projectIds) None # rest
        \<and> filter isTriggerCall rest = [])
   \<and> (projectIdsInput env = Some projectIds
      \<longrightarrow> (\<exists>rest. snd (main_single env)
                  = Request POST triggerUrl_single (Some (triggerBody projectIds)) # rest
               \<and> filter isTriggerCall rest = []))
   \<and> filter isTriggerCall (snd (run env))
       = (case projectIdsInput env of
            None \<Rightarrow> []
          | Some ids \<Rightarrow> if ids = [] then [] else [Request POST (triggerUrlWithParams ids) None])"
proof (intro conjI impI)
  assume "remote env 0 = Rejected msg \<or> (\<exists>r. remote env 0 = Responded r \<and> \<not> ok r)"
  then show "main env projectIds = (1, [Request POST (triggerUrlWithParams projectIds) None])"
    by (auto simp: main_def makeRequest_def fetch_def)
next
  assume "(remote env 0 = Rejected msg \<or> (\<exists>r. remote env 0 = Responded r \<and> \<not> ok r))
        \<and> projectIdsInput env = Some projectIds"
  then show "main_single env = (1, [Request POST triggerUrl_single (Some (triggerBody projectIds))])"
    by (auto simp: main_single_def fetch_def)
next
  assume "(remote env 0 = Rejected msg \<or> (\<exists>r. remote env 0 = Responded r \<and> \<not> ok r))
        \<and> projectIdsInput env = Some projectIds \<and> projectIds \<noteq> []"
  then show "run env = (1, [Request POST (triggerUrlWithParams projectIds) None])"
    by (auto simp: run_def main_def makeRequest_def fetch_def)
next
  show "\<exists>rest. snd (main env projectIds) = Request POST (triggerUrlWithParams projectIds) None # rest
        \<and> filter isTriggerCall rest = []"
    by (rule main_trace)
next
  assume "projectIdsInput env = Some projectIds"
  then show "\<exists>rest. snd (main_single env)
                  = Request POST triggerUrl_single (Some (triggerBody projectIds)) # rest
               \<and> filter isTriggerCall rest = []"
    by (rule main_single_trace)
next
  show "filter isTriggerCall (snd (run env))
       = (case projectIdsInput env of
            None \<Rightarrow> []
          | Some ids \<Rightarrow> if ids = [] then [] else [Request POST (triggerUrlWithParams ids) None])"
  proof (cases "projectIdsInput env")
    case None
    then show ?thesis by (simp add: run_def)
  next
    case (Some ids)
    from main_trace [of env ids] obtain rest where
        "snd (main env ids) = Request POST (triggerUrlWithParams ids) None # rest"
        "filter isTriggerCall rest = []"
      by blast
    with Some show ?thesis by (simp add: run_def)
  qed
qed

theorem trigger_failure_is_fatal_witness:
  "main \<lparr>projectIdsInput = Some ''1,2'', outputFileInput = Some ''out.json'', remote = script [serverError], clock = ''2025-01-01T00:00:00.000Z'', mkdirFails = False, writeFails = False\<rparr> ''1,2'' = (1, [Request POST (triggerUrlWithParams ''1,2'') None])
   \<and> main_single \<lparr>projectIdsInput = Some ''1,2'', outputFileInput = Some ''out.json'', remote = script [serverError], clock = ''2025-01-01T00:00:00.000Z'', mkdirFails = False, writeFails = False\<rparr> = (1, [Request POST triggerUrl_single (Some (triggerBody ''1,2''))])
   \<and> run \<lparr>projectIdsInput = Some ''1,2'', outputFileInput = Some ''out.json'', remote = script [serverError], clock = ''2025-01-01T00:00:00.000Z'', mkdirFails = False, writeFails = False\<rparr> = (1, [Request POST (triggerUrlWithParams ''1,2'') None])
   \<and> (\<exists>rest. snd (main_single \<lparr>projectIdsInput = Some ''1,2'', outputFileInput = Some ''out.json'', remote = script [serverError], clock = ''2025-01-01T00:00:00.000Z'', mkdirFails = False, writeFails = False\<rparr>) = Request POST triggerUrl_single (Some (triggerBody ''1,2'')) # rest
        \<and> filter isTriggerCall rest = [])
   \<and> filter isTriggerCall (snd (run \<lparr>projectIdsInput = Some ''1,2'', outputFileInput = Some ''out.json'', remote = script [serverError], clock = ''2025-01-01T00:00:00.000Z'', mkdirFails = False, writeFails = False\<rparr>)) = [Request POST (triggerUrlWithParams ''1,2'') None]"
  using trigger_failure_is_fatal [where env = "\<lparr>projectIdsInput = Some ''1,2'', outputFileInput = Some ''out.json'', remote = script [serverError], clock = ''2025-01-01T00:00:00.000Z'', mkdirFails = False, writeFails = False\<rparr>" and projectIds = "''1,2''"]
  by (simp add: script_def serverError_def ok_def)

text \<open>
  C6. When \<^verbatim>\<open>transformData\<close> returns, \<^verbatim>\<open>projects\<close> has the length of the input and
  its \<open>i\<close>-th element is the callback's result on the \<open>i\<close>-th record alone; it returns
  whenever no element is \<^verbatim>\<open>null\<close> or \<^verbatim>\<open>undefined\<close>. The \<^verbatim>\<open>projectDetails\<close> of
  a result has exactly the keys \<^verbatim>\<open>id\<close>, \<^verbatim>\<open>title\<close>, \<^verbatim>\<open>budget\<close>,
  \<^verbatim>\<open>milestones_qty\<close>, \<^verbatim>\<open>funds_distributed\<close>, \<^verbatim>\<open>project_id\<close>,
  \<^verbatim>\<open>challenges\<close>, \<^verbatim>\<open>name\<close>, \<^verbatim>\<open>category\<close>, \<^verbatim>\<open>url\<close>, \<^verbatim>\<open>status\<close>,
  \<^verbatim>\<open>finished\<close>, \<^verbatim>\<open>voting\<close>, in this order, each with the value read from the
  record, so two records that agree on these keys and on the two milestone keys give
  the same result. \<^verbatim>\<open>milestonesCompleted\<close> is \<^verbatim>\<open>milestones_completed\<close> whenever
  that is truthy, whatever \<^verbatim>\<open>completed_milestones\<close> is; it is
  \<^verbatim>\<open>completed_milestones\<close> when only that number is there and is not zero, and 0
  when neither key is there.
\<close>

theorem transformData_maps_records:
  "(transformData now (JArr records) = Inr doc
      \<longrightarrow> (\<exists>projects. doc = JObj [(''timestamp'', JStr now), (''projects'', JArr projects)]
            \<and> length projects = length records
            \<and> (\<forall>i<length records. transformProject (records ! i) = Inr (projects ! i))))
   \<and> ((\<forall>r \<in> set records. r \<noteq> JNull \<and> r \<noteq> JUndefined)
      \<longrightarrow> (\<exists>doc. transformData now (JArr records) = Inr doc))
   \<and> (transformProject project = Inr out
      \<longrightarrow> (\<exists>details mc. out = JObj [(''projectDetails'', JObj details), (''milestonesCompleted'', mc)]
            \<and> map fst details
               = [''id'', ''title'', ''budget'', ''milestones_qty'', ''funds_distributed'',
                ''project_id'', ''challenges'', ''name'', ''category'', ''url'', ''status'',
                ''finished'', ''voting'']
            \<and> (\<forall>(k, v) \<in> set details. getProp project k = Inr v)))
   \<and> ((\<forall>k \<in> set [''id'', ''title'', ''budget'', ''milestones_qty'', ''funds_distributed'',
                ''project_id'', ''challenges'', ''name'', ''category'', ''url'', ''status'',
                ''finished'', ''voting'']
              \<union> {''milestones_completed'', ''completed_milestones''}.
          map_of kvs k = map_of kvs' k)
      \<longrightarrow> transformProject (JObj kvs) = transformProject (JObj kvs'))
   \<and> (map_of kvs ''milestones_completed'' = Some a \<and> truthy a
      \<longrightarrow> (\<exists>details. transformProject (JObj kvs)
            = Inr (JObj [(''projectDetails'', JObj details), (''milestonesCompleted'', a)])))
   \<and> (map_of kvs ''milestones_completed'' = Some (JNum n) \<and> n \<noteq> 0
        \<and> map_of kvs ''completed_milestones'' = None
      \<longrightarrow> (\<exists>details. transformProject (JObj kvs)
            = Inr (JObj [(''projectDetails'', JObj details), (''milestonesCompleted'', JNum n)])))
   \<and> (map_of kvs ''milestones_completed'' = None
        \<and> map_of kvs ''completed_milestones'' = Some (JNum n) \<and> n \<noteq> 0
      \<longrightarrow> (\<exists>details. transformProject (JObj kvs)
            = Inr (JObj [(''projectDetails'', JObj details), (''milestonesCompleted'', JNum n)])))
   \<and> (map_of kvs ''milestones_completed'' = None \<and> map_of kvs ''completed_milestones'' = None
      \<longrightarrow> (\<exists>details. transformProject (JObj kvs)
            = Inr (JObj [(''projectDetails'', JObj details), (''milestonesCompleted'', JNum 0)])))"
proof (intro conjI impI)
  assume "transformData now (JArr records) = Inr doc"
  then obtain projects where p: "mapE transformProject records = Inr projects"
      "doc = JObj [(''timestamp'', JStr now), (''projects'', JArr projects)]"
    by (auto simp: transformData_def split: sum.splits)
  with mapE_Inr [OF p(1)]
  show "\<exists>projects. doc = JObj [(''timestamp'', JStr now), (''projects'', JArr projects)]
            \<and> length projects = length records
            \<and> (\<forall>i<length records. transformProject (records ! i) = Inr (projects ! i))"
    by blast
next
  assume "\<forall>r \<in> set records. r \<noteq> JNull \<and> r \<noteq> JUndefined"
  then have "\<exists>ps. mapE transformProject records = Inr ps"
    by (intro mapE_total transformProject_defined) auto
  then show "\<exists>doc. transformData now (JArr records) = Inr doc"
    by (auto simp: transformData_def)
next
  assume "transformProject project = Inr out"
  then show "\<exists>details mc. out = JObj [(''projectDetails'', JObj details), (''milestonesCompleted'', mc)]
            \<and> map fst details
               = [''id'', ''title'', ''budget'', ''milestones_qty'', ''funds_distributed'',
                ''project_id'', ''challenges'', ''name'', ''category'', ''url'', ''status'',
                ''finished'', ''voting'']
            \<and> (\<forall>(k, v) \<in> set details. getProp project k = Inr v)"
    by (rule details_literal)
next
  assume "\<forall>k \<in> set [''id'', ''title'', ''budget'', ''milestones_qty'', ''funds_distributed'',
                ''project_id'', ''challenges'', ''name'', ''category'', ''url'', ''status'',
                ''finished'', ''voting'']
              \<union> {''milestones_completed'', ''completed_milestones''}.
          map_of kvs k = map_of kvs' k"
  then show "transformProject (JObj kvs) = transformProject (JObj kvs')"
    by (rule extras_dropped)
next
  assume "map_of kvs ''milestones_completed'' = Some a \<and> truthy a"
  then show "\<exists>details. transformProject (JObj kvs)
            = Inr (JObj [(''projectDetails'', JObj details), (''milestonesCompleted'', a)])"
    using first_key_wins [of kvs a] by blast
next
  assume "map_of kvs ''milestones_completed'' = Some (JNum n) \<and> n \<noteq> 0
        \<and> map_of kvs ''completed_milestones'' = None"
  then show "\<exists>details. transformProject (JObj kvs)
            = Inr (JObj [(''projectDetails'', JObj details), (''milestonesCompleted'', JNum n)])"
    using first_key_wins [of kvs "JNum n"] by simp
next
  assume a: "map_of kvs ''milestones_completed'' = None
        \<and> map_of kvs ''completed_milestones'' = Some (JNum n) \<and> n \<noteq> 0"
  from transformProject_defined [of "JObj kvs"] obtain out where "transformProject (JObj kvs) = Inr out"
    by auto
  with a show "\<exists>details. transformProject (JObj kvs)
            = Inr (JObj [(''projectDetails'', JObj details), (''milestonesCompleted'', JNum n)])"
    by (auto simp: transformProject_def js_or_def split: sum.splits)
next
  assume a: "map_of kvs ''milestones_completed'' = None \<and> map_of kvs ''completed_milestones'' = None"
  from transformProject_defined [of "JObj kvs"] obtain out where "transformProject (JObj kvs) = Inr out"
    by auto
  with a show "\<exists>details. transformProject (JObj kvs)
            = Inr (JObj [(''projectDetails'', JObj details), (''milestonesCompleted'', JNum 0)])"
    by (auto simp: transformProject_def js_or_def split: sum.splits)
qed

theorem transformData_maps_records_witness:
  "(\<exists>projects. transformData ''T'' (JArr [JObj [(''id'', JNum 1), (''title'', JStr ''A''), (''milestones_completed'', JNum 3)], JObj [(''id'', JNum 1), (''title'', JStr ''A'')]])
        = Inr (JObj [(''timestamp'', JStr ''T''), (''projects'', JArr projects)])
      \<and> length projects = 2
      \<and> transformProject (JObj [(''id'', JNum 1), (''title'', JStr ''A''), (''milestones_completed'', JNum 3)]) = Inr (projects ! 0)
      \<and> transformProject (JObj [(''id'', JNum 1), (''title'', JStr ''A'')]) = Inr (projects ! 1))
   \<and> transformProject (JObj [(''id'', JNum 1), (''title'', JStr ''A''), (''milestones_completed'', JNum 3)])
       = Inr (JObj [(''projectDetails'', JObj [(''id'', JNum 1), (''title'', JStr ''A''), (''budget'', JUndefined),
                 (''milestones_qty'', JUndefined), (''funds_distributed'', JUndefined),
                 (''project_id'', JUndefined), (''challenges'', JUndefined), (''name'', JUndefined),
                 (''category'', JUndefined), (''url'', JUndefined), (''status'', JUndefined),
                 (''finished'', JUndefined), (''voting'', JUndefined)]),
                    (''milestonesCompleted'', JNum 3)])
   \<and> transformProject (JObj [(''id'', JNum 1), (''title'', JStr ''A''), (''milestones_completed'', JNum 3)]) = transformProject (JObj [(''id'', JNum 1), (''title'', JStr ''A''), (''milestones_completed'', JNum 3), (''score'', JNum 9)])
   \<and> (\<exists>details. transformProject (JObj [(''milestones_completed'', JNum 3), (''completed_milestones'', JNum 5)])
        = Inr (JObj [(''projectDetails'', JObj details), (''milestonesCompleted'', JNum 3)]))
   \<and> (\<exists>details. transformProject (JObj [(''id'', JNum 1), (''completed_milestones'', JNum 4)])
        = Inr (JObj [(''projectDetails'', JObj details), (''milestonesCompleted'', JNum 4)]))
   \<and> (\<exists>details. transformProject (JObj [(''id'', JNum 1), (''title'', JStr ''A'')])
        = Inr (JObj [(''projectDetails'', JObj details), (''milestonesCompleted'', JNum 0)]))"
proof -
  note shape = transformData_maps_records [THEN conjunct1, rule_format]
  note total = transformData_maps_records [THEN conjunct2, THEN conjunct1, rule_format]
  note fields = transformData_maps_records [THEN conjunct2, THEN conjunct2, THEN conjunct1, rule_format]
  note extra = transformData_maps_records
    [THEN conjunct2, THEN conjunct2, THEN conjunct2, THEN conjunct1, rule_format]
  note wins = transformData_maps_records
    [THEN conjunct2, THEN conjunct2, THEN conjunct2, THEN conjunct2, THEN conjunct1, rule_format]
  note first = transformData_maps_records
    [THEN conjunct2, THEN conjunct2, THEN conjunct2, THEN conjunct2, THEN conjunct2, THEN conjunct1,
     rule_format]
  note second = transformData_maps_records
    [THEN conjunct2, THEN conjunct2, THEN conjunct2, THEN conjunct2, THEN conjunct2, THEN conjunct2,
     THEN conjunct1, rule_format]
  note neither = transformData_maps_records
    [THEN conjunct2, THEN conjunct2, THEN conjunct2, THEN conjunct2, THEN conjunct2, THEN conjunct2,
     THEN conjunct2, rule_format]
  have "\<exists>doc. transformData ''T'' (JArr [JObj [(''id'', JNum 1), (''title'', JStr ''A''), (''milestones_completed'', JNum 3)], JObj [(''id'', JNum 1), (''title'', JStr ''A'')]]) = Inr doc"
    by (rule total) auto
  then obtain doc where doc: "transformData ''T'' (JArr [JObj [(''id'', JNum 1), (''title'', JStr ''A''), (''milestones_completed'', JNum 3)], JObj [(''id'', JNum 1), (''title'', JStr ''A'')]]) = Inr doc" ..
  from shape [OF doc] obtain projects where
      p: "doc = JObj [(''timestamp'', JStr ''T''), (''projects'', JArr projects)]"
        "length projects = length [JObj [(''id'', JNum 1), (''title'', JStr ''A''), (''milestones_completed'', JNum 3)], JObj [(''id'', JNum 1), (''title'', JStr ''A'')]]"
        "\<forall>i<length [JObj [(''id'', JNum 1), (''title'', JStr ''A''), (''milestones_completed'', JNum 3)], JObj [(''id'', JNum 1), (''title'', JStr ''A'')]]. transformProject ([JObj [(''id'', JNum 1), (''title'', JStr ''A''), (''milestones_completed'', JNum 3)], JObj [(''id'', JNum 1), (''title'', JStr ''A'')]] ! i) = Inr (projects ! i)"
    by blast
  from p(3) [rule_format, of 0] p(3) [rule_format, of 1] p(1,2) doc
  have 1: "\<exists>projects. transformData ''T'' (JArr [JObj [(''id'', JNum 1), (''title'', JStr ''A''), (''milestones_completed'', JNum 3)], JObj [(''id'', JNum 1), (''title'', JStr ''A'')]])
        = Inr (JObj [(''timestamp'', JStr ''T''), (''projects'', JArr projects)])
      \<and> length projects = 2
      \<and> transformProject (JObj [(''id'', JNum 1), (''title'', JStr ''A''), (''milestones_completed'', JNum 3)]) = Inr (projects ! 0)
      \<and> transformProject (JObj [(''id'', JNum 1), (''title'', JStr ''A'')]) = Inr (projects ! 1)"
    by simp
  have "\<exists>details. transformProject (JObj [(''id'', JNum 1), (''title'', JStr ''A''), (''milestones_completed'', JNum 3)])
      = Inr (JObj [(''projectDetails'', JObj details), (''milestonesCompleted'', JNum 3)])"
    by (rule first) simp
  then obtain details where d: "transformProject (JObj [(''id'', JNum 1), (''title'', JStr ''A''), (''milestones_completed'', JNum 3)])
      = Inr (JObj [(''projectDetails'', JObj details), (''milestonesCompleted'', JNum 3)])" ..
  from fields [OF d] obtain details' where
      "\<exists>mc. JObj [(''projectDetails'', JObj details), (''milestonesCompleted'', JNum 3)]
          = JObj [(''projectDetails'', JObj details'), (''milestonesCompleted'', mc)]
        \<and> map fst details' = [''id'', ''title'', ''budget'', ''milestones_qty'', ''funds_distributed'', ''project_id'', ''challenges'', ''name'', ''category'', ''url'', ''status'', ''finished'', ''voting'']
        \<and> (\<forall>(k, v) \<in> set details'. getProp (JObj [(''id'', JNum 1), (''title'', JStr ''A''), (''milestones_completed'', JNum 3)]) k = Inr v)" ..
  then obtain mc where
      all: "JObj [(''projectDetails'', JObj details), (''milestonesCompleted'', JNum 3)]
          = JObj [(''projectDetails'', JObj details'), (''milestonesCompleted'', mc)]
        \<and> map fst details' = [''id'', ''title'', ''budget'', ''milestones_qty'', ''funds_distributed'', ''project_id'', ''challenges'', ''name'', ''category'', ''url'', ''status'', ''finished'', ''voting'']
        \<and> (\<forall>(k, v) \<in> set details'. getProp (JObj [(''id'', JNum 1), (''title'', JStr ''A''), (''milestones_completed'', JNum 3)]) k = Inr v)" ..
  note e = all [THEN conjunct1]
  note k = all [THEN conjunct2, THEN conjunct1]
  note v = all [THEN conjunct2, THEN conjunct2]
  from e have same: "details' = details" by simp
  from v have "\<forall>(k, v) \<in> set details'. (case map_of [(''id'', JNum 1), (''title'', JStr ''A''), (''milestones_completed'', JNum 3)] k of None \<Rightarrow> JUndefined | Some w \<Rightarrow> w) = v"
    by auto
  from alist_determined [OF k this]
  have "details' = [(''id'', JNum 1), (''title'', JStr ''A''), (''budget'', JUndefined),
                 (''milestones_qty'', JUndefined), (''funds_distributed'', JUndefined),
                 (''project_id'', JUndefined), (''challenges'', JUndefined), (''name'', JUndefined),
                 (''category'', JUndefined), (''url'', JUndefined), (''status'', JUndefined),
                 (''finished'', JUndefined), (''voting'', JUndefined)]"
    by simp
  with d same
  have 2: "transformProject (JObj [(''id'', JNum 1), (''title'', JStr ''A''), (''milestones_completed'', JNum 3)])
       = Inr (JObj [(''projectDetails'', JObj [(''id'', JNum 1), (''title'', JStr ''A''), (''budget'', JUndefined),
                 (''milestones_qty'', JUndefined), (''funds_distributed'', JUndefined),
                 (''project_id'', JUndefined), (''challenges'', JUndefined), (''name'', JUndefined),
                 (''category'', JUndefined), (''url'', JUndefined), (''status'', JUndefined),
                 (''finished'', JUndefined), (''voting'', JUndefined)]),
                    (''milestonesCompleted'', JNum 3)])"
    by simp
  have 3: "transformProject (JObj [(''id'', JNum 1), (''title'', JStr ''A''), (''milestones_completed'', JNum 3)]) = transformProject (JObj [(''id'', JNum 1), (''title'', JStr ''A''), (''milestones_completed'', JNum 3), (''score'', JNum 9)])"
    by (rule extra) auto
  have 4: "\<exists>details. transformProject (JObj [(''milestones_completed'', JNum 3), (''completed_milestones'', JNum 5)])
        = Inr (JObj [(''projectDetails'', JObj details), (''milestonesCompleted'', JNum 3)])"
    by (rule wins) simp
  have 5: "\<exists>details. transformProject (JObj [(''id'', JNum 1), (''completed_milestones'', JNum 4)])
        = Inr (JObj [(''projectDetails'', JObj details), (''milestonesCompleted'', JNum 4)])"
    by (rule second) simp
  have 6: "\<exists>details. transformProject (JObj [(''id'', JNum 1), (''title'', JStr ''A'')])
        = Inr (JObj [(''projectDetails'', JObj details), (''milestonesCompleted'', JNum 0)])"
    by (rule neither) simp
  from 1 2 3 4 5 6 show ?thesis by (intro conjI)
qed


text \<open>
  C8. Percent-decoding undoes \<^verbatim>\<open>encodeURIComponent\<close>. The trigger request of the
  query-encoded variant is the first event of \<^verbatim>\<open>main\<close>, and the identifier list
  decoded from its \<^verbatim>\<open>projectIds\<close> parameter is the input split at commas; the same
  holds for the \<^verbatim>\<open>projectIds\<close> array in the body of the trigger request of the
  body-encoded variant.
\<close>

theorem trigger_ids_roundtrip:
  "decodeURIComponent (encodeURIComponent projectIds) = Some projectIds
   \<and> (\<exists>rest. snd (main env projectIds) = Request POST (triggerUrlWithParams projectIds) None # rest)
   \<and> decodedIds (Request POST (triggerUrlWithParams projectIds) None) = Some (split_comma projectIds)
   \<and> (projectIdsInput env = Some projectIds
      \<longrightarrow> (\<exists>rest. snd (main_single env)
                  = Request POST triggerUrl_single (Some (triggerBody projectIds)) # rest))
   \<and> decodedIds (Request POST triggerUrl_single (Some (triggerBody projectIds)))
       = Some (split_comma projectIds)"
proof (intro conjI impI)
  show "decodeURIComponent (encodeURIComponent projectIds) = Some projectIds"
    by (rule decode_encode)
  show "\<exists>rest. snd (main env projectIds) = Request POST (triggerUrlWithParams projectIds) None # rest"
    using main_trace [of env projectIds] by blast
  show "decodedIds (Request POST (triggerUrlWithParams projectIds) None) = Some (split_comma projectIds)"
    by (simp add: queryParam_trigger)
  show "decodedIds (Request POST triggerUrl_single (Some (triggerBody projectIds)))
       = Some (split_comma projectIds)"
    by (simp add: triggerBody_def those_strings_JStr)
  show "\<exists>rest. snd (main_single env)
                  = Request POST triggerUrl_single (Some (triggerBody projectIds)) # rest"
    if "projectIdsInput env = Some projectIds"
    using main_single_trace [OF that] by blast
qed


theorem trigger_ids_roundtrip_witness:
  "(\<exists>rest. snd (main_single \<lparr>projectIdsInput = Some ''1,2'', outputFileInput = Some ''out.json'', remote = script [], clock = ''2025-01-01T00:00:00.000Z'', mkdirFails = False, writeFails = False\<rparr>) = Request POST triggerUrl_single (Some (triggerBody ''1,2'')) # rest)
   \<and> decodedIds (Request POST triggerUrl_single (Some (triggerBody ''1,2''))) = Some [''1'', ''2'']
   \<and> decodedIds (Request POST (triggerUrlWithParams ''1,2'') None) = Some [''1'', ''2'']"
  using trigger_ids_roundtrip [where env = "\<lparr>projectIdsInput = Some ''1,2'', outputFileInput = Some ''out.json'', remote = script [], clock = ''2025-01-01T00:00:00.000Z'', mkdirFails = False, writeFails = False\<rparr>" and projectIds = "''1,2''"]
  by (simp add: split_comma_def)

text \<open>
  C9. The fallback tests truthiness: for a record whose \<^verbatim>\<open>milestones_completed\<close>
  reads as a falsy value (0, for one), \<^verbatim>\<open>milestonesCompleted\<close> is the value of
  \<^verbatim>\<open>completed_milestones\<close> when that is truthy and 0 otherwise; so
  \<^verbatim>\<open>{milestones_completed: 0, completed_milestones: 5}\<close> gives 5.
\<close>

theorem milestones_fallback_truthiness:
  "getProp project ''milestones_completed'' = Inr a \<and> \<not> truthy a
     \<and> getProp project ''completed_milestones'' = Inr b
   \<longrightarrow> (\<exists>details. transformProject project
          = Inr (JObj [(''projectDetails'', JObj details),
                       (''milestonesCompleted'', if truthy b then b else JNum 0)]))"
proof
  assume a: "getProp project ''milestones_completed'' = Inr a \<and> \<not> truthy a
     \<and> getProp project ''completed_milestones'' = Inr b"
  then have "project \<noteq> JNull" "project \<noteq> JUndefined" by auto
  from transformProject_defined [OF this] obtain out where "transformProject project = Inr out"
    by auto
  with a show "\<exists>details. transformProject project
          = Inr (JObj [(''projectDetails'', JObj details),
                       (''milestonesCompleted'', if truthy b then b else JNum 0)])"
    by (auto simp: transformProject_def js_or_def split: sum.splits)
qed


theorem milestones_fallback_truthiness_witness:
  "\<exists>details. transformProject (JObj [(''milestones_completed'', JNum 0), (''completed_milestones'', JNum 5)])
     = Inr (JObj [(''projectDetails'', JObj details), (''milestonesCompleted'', JNum 5)])"
  using milestones_fallback_truthiness [where a = "JNum 0" and b = "JNum 5"
      and project = "JObj [(''milestones_completed'', JNum 0), (''completed_milestones'', JNum 5)]"]
  by simp

text \<open>
  C10. In the two-endpoint poller, when the status response satisfies the completion
  condition and the results fetch that follows fails (it is rejected, answered with a
  status that is not 2xx, or answered with \<^verbatim>\<open>null\<close>), the throw reaches the handler
  of the attempt: on the last allowed attempt the poller raises ``Polling timed out
  after all attempts.''; on any earlier one it sleeps for the interval and asks the
  status endpoint again on the next attempt.
\<close>

theorem results_failure_retried:
  assumes "k < M"
    and "net (length (filter is_request tr)) = Responded r1" "ok r1"
    and "getProp (bodyValue (body r1)) ''hasData'' = Inr h" "truthy h"
    and "getProp (bodyValue (body r1)) ''status'' = Inr st"
      "st = JStr ''completed'' \<or> st = JStr ''partial''"
    and "net (Suc (length (filter is_request tr))) = Rejected msg
      \<or> (\<exists>r. net (Suc (length (filter is_request tr))) = Responded r \<and> (ok r \<longrightarrow> body r = Json JNull))"
  shows "(\<exists>e. tryAttempt net ids I tr =
            (Inl e, tr @ [Request GET (statusUrlWithParams ids) None,
                          Request GET (proposalsUrlWithParams ids) None]))
      \<and> pollFrom net ids M I k tr =
          (if k = M - 1
           then (Inl PollTimeoutAll, tr @ [Request GET (statusUrlWithParams ids) None,
                                           Request GET (proposalsUrlWithParams ids) None])
           else pollFrom net ids M I (Suc k)
                  (tr @ [Request GET (statusUrlWithParams ids) None,
                         Request GET (proposalsUrlWithParams ids) None, Sleep I]))"
proof -
  from tryAttempt_results_failed [where net = net and tr = tr and ids = ids and I = I, OF assms(2-8)]
  obtain e where e: "tryAttempt net ids I tr =
      (Inl e, tr @ [Request GET (statusUrlWithParams ids) None, Request GET (proposalsUrlWithParams ids) None])"
    by blast
  then show ?thesis
    using pollFrom_caught [OF assms(1) e] by simp
qed


theorem results_failure_retried_witness:
  "pollFrom (script [okJson (JObj [(''hasData'', JBool True), (''status'', JStr ''completed'')]), serverError])
     ''7'' 2 5 0 []
   = pollFrom (script [okJson (JObj [(''hasData'', JBool True), (''status'', JStr ''completed'')]), serverError])
       ''7'' 2 5 1
       [Request GET (statusUrlWithParams ''7'') None, Request GET (proposalsUrlWithParams ''7'') None, Sleep 5]
   \<and> pollFrom (script [okJson (JObj [(''hasData'', JBool True), (''status'', JStr ''completed'')]),
                       okJson JNull])
       ''7'' 1 5 0 []
     = (Inl PollTimeoutAll,
        [Request GET (statusUrlWithParams ''7'') None, Request GET (proposalsUrlWithParams ''7'') None])"
  using results_failure_retried [where k = 0 and M = 2 and ids = "''7''" and I = 5 and tr = "[]"
      and net = "script [okJson (JObj [(''hasData'', JBool True), (''status'', JStr ''completed'')]), serverError]"
      and ?r1.0 = "\<lparr>status = 200, statusText = ''OK'',
          body = Json (JObj [(''hasData'', JBool True), (''status'', JStr ''completed'')])\<rparr>"
      and h = "JBool True" and st = "JStr ''completed''"]
    results_failure_retried [where k = 0 and M = 1 and ids = "''7''" and I = 5 and tr = "[]"
      and net = "script [okJson (JObj [(''hasData'', JBool True), (''status'', JStr ''completed'')]), okJson JNull]"
      and ?r1.0 = "\<lparr>status = 200, statusText = ''OK'',
          body = Json (JObj [(''hasData'', JBool True), (''status'', JStr ''completed'')])\<rparr>"
      and h = "JBool True" and st = "JStr ''completed''"]
  by (simp add: script_def okJson_def serverError_def ok_def)


end
